theory Spec2Isabelle
  imports Complex_Main
begin

section \<open>Data model (types.ts)\<close>

text \<open>
  JavaScript numbers are modelled by the numbers they denote: the 0-100 scalars of the
  coherence vector and the reward points as \<^typ>\<open>real\<close>, millisecond timestamps and
  counters as \<^typ>\<open>int\<close>. The arithmetic of the scoring function is double arithmetic
  (see below); comparisons are exact.
\<close>

datatype AgentId = COHERENCE | SELF_KNOWLEDGE | HEALTH | EMOTIONAL_FINANCE | INVESTMENTS | GUIDE

datatype ToolId =
    meditation | content_analyzer | guided_prayer | prayer_pills | dissonance_analyzer
  | therapeutic_journal | quantum_simulator | phi_frontier_radar | dosh_diagnosis
  | wellness_visualizer | belief_resignifier | emotional_spending_map | risk_calculator
  | archetype_journey | verbal_frequency_analysis | routine_aligner | scheduled_session

record DimensionState =
  coerencia :: real
  dissonancia :: real

record CoherenceVector =
  alinhamentoPAC :: real
  proposito :: DimensionState
  mental :: DimensionState
  relacional :: DimensionState
  emocional :: DimensionState
  somatico :: DimensionState
  eticoAcao :: DimensionState
  recursos :: DimensionState

text \<open>The keys of the seven dimensions (\<open>keyof Omit<CoherenceVector, 'alinhamentoPAC'>\<close>)
  and the indexed read \<open>vector[dim]\<close>.\<close>

datatype DimensionKey = Proposito | Mental | Relacional | Emocional | Somatico | EticoAcao | Recursos

fun vector_at :: "CoherenceVector \<Rightarrow> DimensionKey \<Rightarrow> DimensionState" where
  "vector_at v Proposito = proposito v"
| "vector_at v Mental = mental v"
| "vector_at v Relacional = relacional v"
| "vector_at v Emocional = emocional v"
| "vector_at v Somatico = somatico v"
| "vector_at v EticoAcao = eticoAcao v"
| "vector_at v Recursos = recursos v"

text \<open>The documented range of the vector: every scalar lies in 0..100.\<close>

definition in_range :: "real \<Rightarrow> bool" where
  "in_range x = (0 \<le> x \<and> x \<le> 100)"

definition valid_dimension :: "DimensionState \<Rightarrow> bool" where
  "valid_dimension d = (in_range (coerencia d) \<and> in_range (dissonancia d))"

definition valid_vector :: "CoherenceVector \<Rightarrow> bool" where
  "valid_vector v =
     (in_range (alinhamentoPAC v) \<and> valid_dimension (proposito v) \<and> valid_dimension (mental v)
      \<and> valid_dimension (relacional v) \<and> valid_dimension (emocional v)
      \<and> valid_dimension (somatico v) \<and> valid_dimension (eticoAcao v)
      \<and> valid_dimension (recursos v))"

definition initialVector :: CoherenceVector where
  "initialVector =
     \<lparr>alinhamentoPAC = 70,
      proposito = \<lparr>coerencia = 60, dissonancia = 30\<rparr>,
      mental = \<lparr>coerencia = 75, dissonancia = 40\<rparr>,
      relacional = \<lparr>coerencia = 65, dissonancia = 35\<rparr>,
      emocional = \<lparr>coerencia = 50, dissonancia = 50\<rparr>,
      somatico = \<lparr>coerencia = 70, dissonancia = 20\<rparr>,
      eticoAcao = \<lparr>coerencia = 80, dissonancia = 10\<rparr>,
      recursos = \<lparr>coerencia = 55, dissonancia = 60\<rparr>\<rparr>"

text \<open>Chat messages (the optional attached file is not modelled).\<close>

datatype Sender = sender_user | sender_agent

record Message =
  message_id :: string
  sender :: Sender
  message_text :: string
  message_timestamp :: int

text \<open>
  The tagged payload of an activity: a chat transcript or a tool result. The result of a
  tool is \<open>any\<close> in the source; it is the type parameter \<open>'r\<close> here.
\<close>

datatype 'r ActivityData = chat_session "Message list" | tool_usage ToolId 'r

fun data_toolId :: "'r ActivityData \<Rightarrow> ToolId option" where
  "data_toolId (chat_session msgs) = None"
| "data_toolId (tool_usage t r) = Some t"

text \<open>The argument of \<open>logActivity\<close>: an entry without id, timestamp and snapshot.\<close>

record 'r EntryData =
  data_agentId :: AgentId
  data_payload :: "'r ActivityData"

text \<open>The id \<open>activity-${now}\<close> is kept as the number the template prints.\<close>

datatype EntryId = activity_at int

record 'r ActivityLogEntry =
  entry_id :: EntryId
  timestamp :: int
  entry_agentId :: AgentId
  vectorSnapshot :: CoherenceVector
  entry_payload :: "'r ActivityData"

record CoherenceQuest =
  quest_id :: string
  title :: string
  description :: string
  targetTool :: ToolId
  targetDimension :: DimensionKey
  isCompleted :: bool
  completionTimestamp :: "int option"

datatype ScheduleStatus = scheduled | completed | missed

datatype Recurrence = none | daily | weekly | custom

record Schedule =
  schedule_id :: string
  activity :: ToolId
  time :: int
  status :: ScheduleStatus
  recurrence :: Recurrence
  recurrenceDays :: "int list option"

text \<open>The guide's \<open>context\<close> is \<open>any\<close> in the source; the only part of it the store
  reads is \<open>context?.agent?.id\<close>, kept here as an optional agent.\<close>

record GuideState =
  isActive :: bool
  step :: int
  tourId :: "string option"
  guide_context :: "AgentId option"

datatype View = dashboard | agents | tools | quests

datatype Mode = mode_voice | mode_text

datatype Origin = origin_voice | origin_manual

text \<open>The session union, by its discriminant: a mentor chat with its agent, or one of
  the other variants under its \<open>type\<close> tag (their start-up payloads play no part in
  the transitions modelled here).\<close>

datatype SessionType = agent_session AgentId | other_session string

record CurrentSession =
  session_type :: SessionType
  mode :: "Mode option"
  origin :: "Origin option"

text \<open>
  The store. Only the fields that the modelled actions read or write are kept: the
  remaining ones (tool states, toasts, font size, chat handles, loading flags, ...) are
  left untouched by them.
\<close>

record 'r AppState =
  coherenceVector :: CoherenceVector
  ucs :: int
  recommendation :: "AgentId option"
  recommendationName :: string
  activeView :: View
  currentSession :: "CurrentSession option"
  chatHistories :: "AgentId \<Rightarrow> Message list"
  schedules :: "Schedule list"
  guideState :: GuideState
  completedTours :: "string list"
  activityLog :: "'r ActivityLogEntry list"
  isVoiceNavOpen :: bool
  reconnectionAgentId :: "AgentId option"
  proactiveNavContext :: "string option"
  coherencePoints :: real
  coherenceStreak :: int
  lastActivityTimestamp :: "int option"
  activeQuest :: "CoherenceQuest option"
  completedQuests :: "CoherenceQuest list"

text \<open>
  What the store takes from outside: the orchestrator imported from
  \<open>hooks/usePicOrchestrator.ts\<close> and the two summarisation services imported from
  \<open>services/geminiService.ts\<close> (parameters here; a rejected promise is \<open>None\<close>), the
  clock \<open>Date.now()\<close> of the call, and the offset of local time from UTC in
  milliseconds that \<open>logActivity\<close> uses to tell calendar days apart.
\<close>

record 'r Env =
  orchestrate :: "'r EntryData \<Rightarrow> CoherenceVector \<Rightarrow> CoherenceVector \<times> real"
  summarizeToolResultForEngagement :: "ToolId \<Rightarrow> 'r \<Rightarrow> string option"
  summarizeForProactiveEngagement :: "Message list \<Rightarrow> string option"
  Date_now :: int
  LocalTZA :: int

section \<open>IEEE 754 double arithmetic\<close>

text \<open>
  The scoring function computes with JavaScript numbers, which are IEEE 754 binary64
  values. A finite double is modelled by the real number it denotes, and an arithmetic
  operation returns the exact result rounded to the nearest double, ties to the even
  significand (53 bits, least exponent -1074 for the subnormal range). Overflow to
  Infinity, NaN and the sign of zero are not modelled: none of them arises from operands
  of the magnitudes that the scoring function meets.
\<close>

text \<open>The number of binary digits of a positive integer.\<close>

function bit_length :: "int \<Rightarrow> int" where
  "bit_length n = (if 0 < n then bit_length (n div 2) + 1 else 0)"
  by pat_completeness auto
termination
  by (relation "measure nat") auto

declare bit_length.simps [simp del]

text \<open>For \<open>0 < x\<close>, the exponent \<open>k\<close> with \<open>2 ^ k \<le> x < 2 ^ (k + 1)\<close>.\<close>

definition ilog2 :: "real \<Rightarrow> int" where
  "ilog2 x = (if 1 \<le> x then bit_length \<lfloor>x\<rfloor> - 1 else - bit_length (\<lceil>1 / x\<rceil> - 1))"

definition two_to :: "int \<Rightarrow> real" where
  "two_to e = (if 0 \<le> e then 2 ^ nat e else 1 / 2 ^ nat (- e))"

definition round_half_even :: "real \<Rightarrow> int" where
  "round_half_even x =
     (let f = \<lfloor>x\<rfloor>; r = x - of_int f
      in if r < 1 / 2 then f else if 1 / 2 < r then f + 1 else if even f then f else f + 1)"

text \<open>Rounding of a real to the nearest double.\<close>

definition fl :: "real \<Rightarrow> real" where
  "fl x =
     (if x = 0 then 0
      else (let e = max (ilog2 \<bar>x\<bar> - 52) (- 1074)
            in of_int (round_half_even (x / two_to e)) * two_to e))"

definition d_add :: "real \<Rightarrow> real \<Rightarrow> real" where
  "d_add x y = fl (x + y)"

definition d_sub :: "real \<Rightarrow> real \<Rightarrow> real" where
  "d_sub x y = fl (x - y)"

definition d_mul :: "real \<Rightarrow> real \<Rightarrow> real" where
  "d_mul x y = fl (x * y)"

definition d_div :: "real \<Rightarrow> real \<Rightarrow> real" where
  "d_div x y = fl (x / y)"

section \<open>Scoring function: calculateUcs\<close>

text \<open>\<open>Math.round\<close> rounds to the nearest integer, halves towards plus infinity;
  \<open>Math.max\<close> and \<open>Math.min\<close> are exact. The literals \<open>0.2\<close> and \<open>0.9\<close> denote the doubles
  nearest to them; 100, 2 and the length 7 are doubles.\<close>

definition Math_round :: "real \<Rightarrow> int" where
  "Math_round x = \<lfloor>x + 1 / 2\<rfloor>"

definition ucs_dimensions :: "DimensionKey list" where
  "ucs_dimensions = [Proposito, Mental, Relacional, Emocional, Somatico, EticoAcao, Recursos]"

definition calculateUcs :: "CoherenceVector \<Rightarrow> int" where
  "calculateUcs vector =
     (let totalCoherence =
            foldl (\<lambda>acc d. d_add acc (coerencia (vector_at vector d))) 0 ucs_dimensions;
          totalDissonance =
            foldl (\<lambda>acc d. d_add acc (dissonancia (vector_at vector d))) 0 ucs_dimensions;
          avgCoherence = d_div totalCoherence (real (length ucs_dimensions));
          avgDissonance = d_div totalDissonance (real (length ucs_dimensions));
          netCoherence = d_sub avgCoherence avgDissonance;
          pacFactor = d_add (d_mul (d_div (alinhamentoPAC vector) 100) (fl 0.2)) (fl 0.9);
          finalScore = d_div (d_add (d_mul netCoherence pacFactor) 100) 2
      in Math_round (max 0 (min 100 finalScore)))"

text \<open>The formula of the specification read in exact arithmetic: the mean of the seven
  coherence values minus the mean of the seven dissonance values, the alignment factor,
  then clamp and round.\<close>

definition spec_netCoherence :: "CoherenceVector \<Rightarrow> real" where
  "spec_netCoherence v =
     (coerencia (proposito v) + coerencia (mental v) + coerencia (relacional v)
        + coerencia (emocional v) + coerencia (somatico v) + coerencia (eticoAcao v)
        + coerencia (recursos v)) / 7
     - (dissonancia (proposito v) + dissonancia (mental v) + dissonancia (relacional v)
        + dissonancia (emocional v) + dissonancia (somatico v) + dissonancia (eticoAcao v)
        + dissonancia (recursos v)) / 7"

definition spec_factor :: "CoherenceVector \<Rightarrow> real" where
  "spec_factor v = 0.9 + 0.2 * (alinhamentoPAC v / 100)"

definition spec_clamp :: "real \<Rightarrow> real \<Rightarrow> real \<Rightarrow> real" where
  "spec_clamp x lo hi = (if x < lo then lo else if hi < x then hi else x)"

definition spec_score :: "CoherenceVector \<Rightarrow> int" where
  "spec_score v = round (spec_clamp ((spec_netCoherence v * spec_factor v + 100) / 2) 0 100)"

text \<open>The same formula with every operation in double arithmetic: the sums run over the
  dimensions in their canonical order, starting from 0.\<close>

definition double_sum7 :: "real \<Rightarrow> real \<Rightarrow> real \<Rightarrow> real \<Rightarrow> real \<Rightarrow> real \<Rightarrow> real \<Rightarrow> real" where
  "double_sum7 a b c d e f g =
     d_add (d_add (d_add (d_add (d_add (d_add (d_add 0 a) b) c) d) e) f) g"

definition double_netCoherence :: "CoherenceVector \<Rightarrow> real" where
  "double_netCoherence v =
     d_sub
       (d_div (double_sum7 (coerencia (proposito v)) (coerencia (mental v))
                 (coerencia (relacional v)) (coerencia (emocional v)) (coerencia (somatico v))
                 (coerencia (eticoAcao v)) (coerencia (recursos v))) 7)
       (d_div (double_sum7 (dissonancia (proposito v)) (dissonancia (mental v))
                 (dissonancia (relacional v)) (dissonancia (emocional v)) (dissonancia (somatico v))
                 (dissonancia (eticoAcao v)) (dissonancia (recursos v))) 7)"

definition double_factor :: "CoherenceVector \<Rightarrow> real" where
  "double_factor v = d_add (fl 0.9) (d_mul (fl 0.2) (d_div (alinhamentoPAC v) 100))"

definition double_score :: "CoherenceVector \<Rightarrow> int" where
  "double_score v =
     round (spec_clamp (d_div (d_add (d_mul (double_netCoherence v) (double_factor v)) 100) 2) 0 100)"

definition uniform_vector :: "real \<Rightarrow> real \<Rightarrow> real \<Rightarrow> CoherenceVector" where
  "uniform_vector a c d =
     \<lparr>alinhamentoPAC = a,
      proposito = \<lparr>coerencia = c, dissonancia = d\<rparr>,
      mental = \<lparr>coerencia = c, dissonancia = d\<rparr>,
      relacional = \<lparr>coerencia = c, dissonancia = d\<rparr>,
      emocional = \<lparr>coerencia = c, dissonancia = d\<rparr>,
      somatico = \<lparr>coerencia = c, dissonancia = d\<rparr>,
      eticoAcao = \<lparr>coerencia = c, dissonancia = d\<rparr>,
      recursos = \<lparr>coerencia = c, dissonancia = d\<rparr>\<rparr>"

section \<open>Recommendation function: getPicRecommendation\<close>

record DimensionEntry =
  key :: DimensionKey
  agent :: AgentId
  name :: string

record Recommendation =
  agentId :: AgentId
  dimensionName :: string

text \<open>The static lookup table. The labels are the UTF-8 bytes of the source's strings.\<close>

definition dimensions :: "DimensionEntry list" where
  "dimensions =
     [\<lparr>key = Proposito, agent = SELF_KNOWLEDGE, name = ''Prop'' @ [CHR 0xC3, CHR 0xB3] @ ''sito''\<rparr>,
      \<lparr>key = Mental, agent = SELF_KNOWLEDGE, name = ''Mental''\<rparr>,
      \<lparr>key = Relacional, agent = COHERENCE, name = ''Relacional''\<rparr>,
      \<lparr>key = Emocional, agent = COHERENCE, name = ''Emocional''\<rparr>,
      \<lparr>key = Somatico, agent = HEALTH, name = ''Som'' @ [CHR 0xC3, CHR 0xA1] @ ''tico''\<rparr>,
      \<lparr>key = EticoAcao, agent = COHERENCE,
        name = [CHR 0xC3, CHR 0x89] @ ''tico-A'' @ [CHR 0xC3, CHR 0xA7, CHR 0xC3, CHR 0xA3] @ ''o''\<rparr>,
      \<lparr>key = Recursos, agent = EMOTIONAL_FINANCE, name = ''Recursos''\<rparr>]"

definition fallback_recommendation :: Recommendation where
  "fallback_recommendation = \<lparr>agentId = COHERENCE, dimensionName = ''Geral''\<rparr>"

definition entry_recommendation :: "DimensionEntry \<Rightarrow> Recommendation" where
  "entry_recommendation d = \<lparr>agentId = agent d, dimensionName = name d\<rparr>"

definition entry_dissonance :: "CoherenceVector \<Rightarrow> DimensionEntry \<Rightarrow> real" where
  "entry_dissonance vector d = dissonancia (vector_at vector (key d))"

text \<open>One pass of the \<open>forEach\<close> body over the pair of mutable locals
  \<open>(highestDissonance, recommendation)\<close>.\<close>

definition scan_step :: "CoherenceVector \<Rightarrow> real \<times> Recommendation \<Rightarrow> DimensionEntry \<Rightarrow> real \<times> Recommendation" where
  "scan_step vector acc d =
     (if entry_dissonance vector d > fst acc
      then (entry_dissonance vector d, entry_recommendation d)
      else acc)"

definition scan :: "CoherenceVector \<Rightarrow> DimensionEntry list \<Rightarrow> real \<times> Recommendation" where
  "scan vector dims = foldl (scan_step vector) (-1, fallback_recommendation) dims"

definition getPicRecommendation :: "CoherenceVector \<Rightarrow> Recommendation" where
  "getPicRecommendation vector = snd (scan vector dimensions)"

text \<open>The part of the documented range that the scan relies on: no dissonance value of
  the seven dimensions is negative.\<close>

definition nonneg_dissonance :: "CoherenceVector \<Rightarrow> bool" where
  "nonneg_dissonance v = list_all (\<lambda>d. 0 \<le> entry_dissonance v d) dimensions"

section \<open>Properties of the scoring function\<close>

lemma Math_round_eq_round: "Math_round x = round x"
  by (simp add: Math_round_def round_def)

lemma clamp_eq: "max 0 (min 100 x) = spec_clamp x 0 100"
  by (simp add: spec_clamp_def max_def min_def)

lemma calculateUcs_double_score: "calculateUcs v = double_score v"
proof -
  have net: "d_sub
        (d_div (foldl (\<lambda>acc d. d_add acc (coerencia (vector_at v d))) 0 ucs_dimensions)
           (real (length ucs_dimensions)))
        (d_div (foldl (\<lambda>acc d. d_add acc (dissonancia (vector_at v d))) 0 ucs_dimensions)
           (real (length ucs_dimensions)))
      = double_netCoherence v"
    by (simp add: ucs_dimensions_def double_netCoherence_def double_sum7_def)
  have fac: "d_add (d_mul (d_div (alinhamentoPAC v) 100) (fl 0.2)) (fl 0.9) = double_factor v"
    by (simp add: double_factor_def d_add_def d_mul_def add.commute mult.commute)
  show ?thesis
    unfolding calculateUcs_def Let_def net fac double_score_def
    by (simp only: Math_round_eq_round clamp_eq)
qed

lemma Math_round_clamped: "0 \<le> Math_round (max 0 (min 100 x)) \<and> Math_round (max 0 (min 100 x)) \<le> 100"
proof -
  let ?y = "max 0 (min 100 x)"
  have "0 \<le> ?y" "?y \<le> 100" by simp_all
  then have "0 \<le> \<lfloor>?y + 1 / 2\<rfloor>" "\<lfloor>?y + 1 / 2\<rfloor> \<le> 100"
    by (simp_all add: floor_le_iff le_floor_iff)
  then show ?thesis by (simp add: Math_round_def)
qed

lemma calculateUcs_range: "0 \<le> calculateUcs v \<and> calculateUcs v \<le> 100"
  unfolding calculateUcs_def Let_def by (rule Math_round_clamped)

lemma valid_initialVector: "valid_vector initialVector"
  by (simp add: valid_vector_def valid_dimension_def in_range_def initialVector_def)

text \<open>
  Claim C3, as stated, fails when its formula is read in exact arithmetic. At alignment
  100 with every dimension at coherence 0 and dissonance 50 (a valid vector) the net
  coherence is -50 and the exact value of \<open>(netCoherence * factor + 100) / 2\<close> is 22.5,
  which rounds to 23; the code, in doubles, gets the factor 1.1000000000000000888, the
  product -55.000000000000007 and the score 22.499999999999996, and returns 22.
\<close>

theorem calculateUcs_differs_from_exact_formula:
  "valid_vector (uniform_vector 100 0 50)
   \<and> calculateUcs (uniform_vector 100 0 50) = 22
   \<and> spec_score (uniform_vector 100 0 50) = 23"
proof -
  have "valid_vector (uniform_vector 100 0 50)"
    by (simp add: valid_vector_def valid_dimension_def in_range_def uniform_vector_def)
  moreover have "calculateUcs (uniform_vector 100 0 50) = 22"
    by code_simp
  moreover have "spec_score (uniform_vector 100 0 50) = 23"
    by (simp add: spec_score_def spec_netCoherence_def spec_factor_def spec_clamp_def
        uniform_vector_def round_def)
  ultimately show ?thesis by simp
qed

text \<open>
  Claim C3, amended. For every coherence vector whose alignment and per-dimension values
  lie in 0..100, \<open>calculateUcs\<close> returns \<open>round (clamp ((netCoherence * factor + 100) / 2, 0, 100))\<close>
  where the two means, their difference, the factor \<open>0.9 + 0.2 * (alignment / 100)\<close> and
  the normalisation are evaluated in IEEE 754 double arithmetic, each operation rounded to
  the nearest double; the result is an integer between 0 and 100; and the vector with
  every dimension at coherence 50, dissonance 50 and alignment 70 scores exactly 50.
  (The equalities do not depend on the range hypothesis; it is kept because the claim is
  about valid vectors.)
\<close>

theorem calculateUcs_double_formula:
  assumes "valid_vector v"
  shows "calculateUcs v = double_score v
    \<and> 0 \<le> calculateUcs v \<and> calculateUcs v \<le> 100
    \<and> calculateUcs (uniform_vector 70 50 50) = 50"
proof -
  have "calculateUcs (uniform_vector 70 50 50) = 50"
    by code_simp
  then show ?thesis
    using calculateUcs_double_score[of v] calculateUcs_range[of v] by simp
qed

theorem calculateUcs_double_formula_witness:
  "valid_vector initialVector \<and> calculateUcs initialVector = 66 \<and> double_score initialVector = 66"
proof -
  have "calculateUcs initialVector = 66"
    by code_simp
  then show ?thesis
    using calculateUcs_double_formula[OF valid_initialVector] valid_initialVector by simp
qed

section \<open>Properties of the recommendation function\<close>

lemma scan_fold_invariant:
  "(foldl (scan_step v) (h0, r0) ds = (h0, r0)
      \<and> (\<forall>j<length ds. entry_dissonance v (ds ! j) \<le> h0))
   \<or> (\<exists>i<length ds.
        foldl (scan_step v) (h0, r0) ds = (entry_dissonance v (ds ! i), entry_recommendation (ds ! i))
        \<and> h0 < entry_dissonance v (ds ! i)
        \<and> (\<forall>j<length ds. entry_dissonance v (ds ! j) \<le> entry_dissonance v (ds ! i))
        \<and> (\<forall>j<i. entry_dissonance v (ds ! j) < entry_dissonance v (ds ! i)))"
proof (induction ds rule: rev_induct)
  case Nil
  then show ?case by simp
next
  case (snoc x xs)
  let ?n = "length xs"
  let ?ys = "xs @ [x]"
  have last: "?ys ! ?n = x" by simp
  from snoc show ?case
  proof (elim disjE conjE exE)
    assume same: "foldl (scan_step v) (h0, r0) xs = (h0, r0)"
      and le: "\<forall>j<length xs. entry_dissonance v (xs ! j) \<le> h0"
    then have step: "foldl (scan_step v) (h0, r0) ?ys = scan_step v (h0, r0) x" by simp
    show ?thesis
    proof (cases "entry_dissonance v x > h0")
      case True
      have "foldl (scan_step v) (h0, r0) ?ys = (entry_dissonance v x, entry_recommendation x)"
        using step True by (simp add: scan_step_def)
      moreover have "\<forall>j<?n. entry_dissonance v (?ys ! j) < entry_dissonance v x"
        using le True by (auto simp: nth_append)
      moreover have "\<forall>j<length ?ys. entry_dissonance v (?ys ! j) \<le> entry_dissonance v x"
        using le True by (auto simp: nth_append less_Suc_eq)
      ultimately have "?n < length ?ys
        \<and> foldl (scan_step v) (h0, r0) ?ys = (entry_dissonance v (?ys ! ?n), entry_recommendation (?ys ! ?n))
        \<and> h0 < entry_dissonance v (?ys ! ?n)
        \<and> (\<forall>j<length ?ys. entry_dissonance v (?ys ! j) \<le> entry_dissonance v (?ys ! ?n))
        \<and> (\<forall>j<?n. entry_dissonance v (?ys ! j) < entry_dissonance v (?ys ! ?n))"
        using True unfolding last by simp
      then show ?thesis by blast
    next
      case False
      have "foldl (scan_step v) (h0, r0) ?ys = (h0, r0)"
        using step False by (simp add: scan_step_def)
      moreover have "\<forall>j<length ?ys. entry_dissonance v (?ys ! j) \<le> h0"
        using le False by (auto simp: nth_append less_Suc_eq)
      ultimately show ?thesis by blast
    qed
  next
    fix i
    assume i: "i < length xs"
      and res: "foldl (scan_step v) (h0, r0) xs = (entry_dissonance v (xs ! i), entry_recommendation (xs ! i))"
      and gt: "h0 < entry_dissonance v (xs ! i)"
      and le: "\<forall>j<length xs. entry_dissonance v (xs ! j) \<le> entry_dissonance v (xs ! i)"
      and lt: "\<forall>j<i. entry_dissonance v (xs ! j) < entry_dissonance v (xs ! i)"
    have step: "foldl (scan_step v) (h0, r0) ?ys
        = scan_step v (entry_dissonance v (xs ! i), entry_recommendation (xs ! i)) x"
      using res by simp
    have ith: "?ys ! i = xs ! i" using i by (simp add: nth_append)
    show ?thesis
    proof (cases "entry_dissonance v x > entry_dissonance v (xs ! i)")
      case True
      have "foldl (scan_step v) (h0, r0) ?ys = (entry_dissonance v x, entry_recommendation x)"
        using step True by (simp add: scan_step_def)
      moreover have "\<forall>j<?n. entry_dissonance v (?ys ! j) < entry_dissonance v x"
        using le True by (fastforce simp: nth_append)
      moreover have "\<forall>j<length ?ys. entry_dissonance v (?ys ! j) \<le> entry_dissonance v x"
        using le True by (fastforce simp: nth_append less_Suc_eq)
      moreover have "h0 < entry_dissonance v x" using gt True by simp
      ultimately have "?n < length ?ys
        \<and> foldl (scan_step v) (h0, r0) ?ys = (entry_dissonance v (?ys ! ?n), entry_recommendation (?ys ! ?n))
        \<and> h0 < entry_dissonance v (?ys ! ?n)
        \<and> (\<forall>j<length ?ys. entry_dissonance v (?ys ! j) \<le> entry_dissonance v (?ys ! ?n))
        \<and> (\<forall>j<?n. entry_dissonance v (?ys ! j) < entry_dissonance v (?ys ! ?n))"
        unfolding last by simp
      then show ?thesis by blast
    next
      case False
      have "foldl (scan_step v) (h0, r0) ?ys = (entry_dissonance v (xs ! i), entry_recommendation (xs ! i))"
        using step False by (simp add: scan_step_def)
      moreover have "\<forall>j<length ?ys. entry_dissonance v (?ys ! j) \<le> entry_dissonance v (xs ! i)"
        using le False by (auto simp: nth_append less_Suc_eq)
      moreover have "\<forall>j<i. entry_dissonance v (?ys ! j) < entry_dissonance v (xs ! i)"
        using lt i by (auto simp: nth_append)
      ultimately have "i < length ?ys
        \<and> foldl (scan_step v) (h0, r0) ?ys = (entry_dissonance v (?ys ! i), entry_recommendation (?ys ! i))
        \<and> h0 < entry_dissonance v (?ys ! i)
        \<and> (\<forall>j<length ?ys. entry_dissonance v (?ys ! j) \<le> entry_dissonance v (?ys ! i))
        \<and> (\<forall>j<i. entry_dissonance v (?ys ! j) < entry_dissonance v (?ys ! i))"
        using gt i unfolding ith by simp
      then show ?thesis by blast
    qed
  qed
qed

lemma nonneg_dissonance_nth:
  "nonneg_dissonance v \<Longrightarrow> j < length dimensions \<Longrightarrow> 0 \<le> entry_dissonance v (dimensions ! j)"
  by (simp add: nonneg_dissonance_def list_all_length)

lemma length_dimensions: "length dimensions = 7"
  by (simp add: dimensions_def)

lemma scan_dimensions_max:
  assumes "nonneg_dissonance v"
  shows "\<exists>i<length dimensions.
           scan v dimensions = (entry_dissonance v (dimensions ! i), entry_recommendation (dimensions ! i))
           \<and> (\<forall>j<length dimensions. entry_dissonance v (dimensions ! j) \<le> entry_dissonance v (dimensions ! i))
           \<and> (\<forall>j<i. entry_dissonance v (dimensions ! j) < entry_dissonance v (dimensions ! i))"
proof -
  have "0 \<le> entry_dissonance v (dimensions ! 0)"
    using assms by (simp add: nonneg_dissonance_nth length_dimensions)
  then have "\<not> (\<forall>j<length dimensions. entry_dissonance v (dimensions ! j) \<le> -1)"
    by (auto simp: length_dimensions intro!: exI[of _ 0])
  then show ?thesis
    using scan_fold_invariant[of v "-1" fallback_recommendation dimensions]
    unfolding scan_def by blast
qed

text \<open>
  Claim C4. For every coherence vector (its dissonance values non-negative, as the data
  model documents), \<open>getPicRecommendation\<close> returns the agent and the label of a table
  entry whose dissonance is maximal among the seven dimensions, and every entry before
  it in the table has strictly smaller dissonance: among tied maxima the earliest in the
  order purpose, mental, relational, emotional, somatic, ethical-action, resources wins.
\<close>

theorem getPicRecommendation_max_dissonance:
  assumes "nonneg_dissonance v"
  shows "map key dimensions = [Proposito, Mental, Relacional, Emocional, Somatico, EticoAcao, Recursos]
    \<and> (\<exists>i<length dimensions.
         getPicRecommendation v = \<lparr>agentId = agent (dimensions ! i), dimensionName = name (dimensions ! i)\<rparr>
         \<and> (\<forall>j<length dimensions.
               dissonancia (vector_at v (key (dimensions ! j))) \<le> dissonancia (vector_at v (key (dimensions ! i))))
         \<and> (\<forall>j<i. dissonancia (vector_at v (key (dimensions ! j))) < dissonancia (vector_at v (key (dimensions ! i)))))"
proof -
  have "map key dimensions = [Proposito, Mental, Relacional, Emocional, Somatico, EticoAcao, Recursos]"
    by (simp add: dimensions_def)
  moreover from scan_dimensions_max[OF assms] obtain i where
    "i < length dimensions"
    "scan v dimensions = (entry_dissonance v (dimensions ! i), entry_recommendation (dimensions ! i))"
    "\<forall>j<length dimensions. entry_dissonance v (dimensions ! j) \<le> entry_dissonance v (dimensions ! i)"
    "\<forall>j<i. entry_dissonance v (dimensions ! j) < entry_dissonance v (dimensions ! i)"
    by blast
  then have "\<exists>i<length dimensions.
         getPicRecommendation v = \<lparr>agentId = agent (dimensions ! i), dimensionName = name (dimensions ! i)\<rparr>
         \<and> (\<forall>j<length dimensions.
               dissonancia (vector_at v (key (dimensions ! j))) \<le> dissonancia (vector_at v (key (dimensions ! i))))
         \<and> (\<forall>j<i. dissonancia (vector_at v (key (dimensions ! j))) < dissonancia (vector_at v (key (dimensions ! i))))"
    unfolding getPicRecommendation_def entry_dissonance_def entry_recommendation_def
    by (intro exI[of _ i]) simp
  ultimately show ?thesis by blast
qed

lemma nonneg_uniform: "nonneg_dissonance (uniform_vector 70 50 50)"
  by (simp add: nonneg_dissonance_def dimensions_def entry_dissonance_def uniform_vector_def)

lemma uniform_diss: "j < length dimensions \<Longrightarrow> dissonancia (vector_at (uniform_vector a c d) (key (dimensions ! j))) = d"
  by (cases "key (dimensions ! j)") (simp_all add: uniform_vector_def)

theorem getPicRecommendation_max_dissonance_witness:
  "nonneg_dissonance (uniform_vector 70 50 50)
   \<and> getPicRecommendation (uniform_vector 70 50 50)
       = \<lparr>agentId = SELF_KNOWLEDGE, dimensionName = ''Prop'' @ [CHR 0xC3, CHR 0xB3] @ ''sito''\<rparr>"
proof -
  let ?v = "uniform_vector 70 50 50"
  have h: "nonneg_dissonance ?v" by (rule nonneg_uniform)
  from getPicRecommendation_max_dissonance[OF h] obtain i where
    i: "i < length dimensions"
    and r: "getPicRecommendation ?v = \<lparr>agentId = agent (dimensions ! i), dimensionName = name (dimensions ! i)\<rparr>"
    and first: "\<forall>j<i. dissonancia (vector_at ?v (key (dimensions ! j))) < dissonancia (vector_at ?v (key (dimensions ! i)))"
    by blast
  have "i = 0"
  proof (rule ccontr)
    assume "i \<noteq> 0"
    then have "0 < i" by simp
    with first have "dissonancia (vector_at ?v (key (dimensions ! 0))) < dissonancia (vector_at ?v (key (dimensions ! i)))"
      by blast
    then show False using i by (simp add: uniform_diss length_dimensions)
  qed
  with r h show ?thesis by (simp add: dimensions_def)
qed

lemma nonneg_initialVector: "nonneg_dissonance initialVector"
  by (simp add: nonneg_dissonance_def dimensions_def entry_dissonance_def initialVector_def)

lemma fallback_not_in_table:
  "fallback_recommendation \<notin> set (map entry_recommendation dimensions)"
  by (simp add: fallback_recommendation_def dimensions_def entry_recommendation_def)

text \<open>
  Claim C9. For every coherence vector whose seven dissonance values are non-negative,
  the scan, which starts from the sentinel -1, replaces the fallback at the first
  dimension, and \<open>getPicRecommendation\<close> never returns the fallback
  (COHERENCE, 'Geral'): its result is one of the seven entries of the lookup table.
\<close>

theorem getPicRecommendation_never_fallback:
  assumes "nonneg_dissonance v"
  shows "scan v (take 1 dimensions) = (dissonancia (proposito v), entry_recommendation (dimensions ! 0))
    \<and> getPicRecommendation v \<noteq> fallback_recommendation
    \<and> getPicRecommendation v \<in> set (map entry_recommendation dimensions)"
proof -
  have "0 \<le> entry_dissonance v (dimensions ! 0)"
    using assms by (simp add: nonneg_dissonance_nth length_dimensions)
  then have first: "scan v (take 1 dimensions)
      = (dissonancia (proposito v), entry_recommendation (dimensions ! 0))"
    by (simp add: scan_def scan_step_def dimensions_def entry_dissonance_def)
  from scan_dimensions_max[OF assms] obtain i where
    i: "i < length dimensions"
    and "scan v dimensions = (entry_dissonance v (dimensions ! i), entry_recommendation (dimensions ! i))"
    by blast
  then have "getPicRecommendation v = entry_recommendation (dimensions ! i)"
    by (simp add: getPicRecommendation_def)
  with i have mem: "getPicRecommendation v \<in> set (map entry_recommendation dimensions)"
    by simp
  with fallback_not_in_table have "getPicRecommendation v \<noteq> fallback_recommendation"
    by metis
  with first mem show ?thesis by simp
qed

theorem getPicRecommendation_never_fallback_witness:
  "nonneg_dissonance initialVector
   \<and> getPicRecommendation initialVector \<noteq> \<lparr>agentId = COHERENCE, dimensionName = ''Geral''\<rparr>"
  using getPicRecommendation_never_fallback[OF nonneg_initialVector] nonneg_initialVector
  by (simp add: fallback_recommendation_def)

section \<open>Initial store\<close>

definition initialState :: "'r AppState" where
  "initialState =
     \<lparr>coherenceVector = initialVector,
      ucs = calculateUcs initialVector,
      recommendation = Some (agentId (getPicRecommendation initialVector)),
      recommendationName = dimensionName (getPicRecommendation initialVector),
      activeView = dashboard,
      currentSession = None,
      chatHistories = (\<lambda>a. []),
      schedules = [],
      guideState = \<lparr>isActive = False, step = 0, tourId = None, guide_context = None\<rparr>,
      completedTours = [],
      activityLog = [],
      isVoiceNavOpen = False,
      reconnectionAgentId = None,
      proactiveNavContext = None,
      coherencePoints = 0,
      coherenceStreak = 0,
      lastActivityTimestamp = None,
      activeQuest = None,
      completedQuests = []\<rparr>"

section \<open>Guided tour step-engine\<close>

text \<open>The string values of the \<open>AgentId\<close> enum, as the template \<open>mentor_${id}\<close> prints them.\<close>

fun AgentId_value :: "AgentId \<Rightarrow> string" where
  "AgentId_value COHERENCE = ''coherence''"
| "AgentId_value SELF_KNOWLEDGE = ''self_knowledge''"
| "AgentId_value HEALTH = ''health''"
| "AgentId_value EMOTIONAL_FINANCE = ''emotional_finance''"
| "AgentId_value INVESTMENTS = ''investments''"
| "AgentId_value GUIDE = ''guide''"

definition startGuide :: "string \<Rightarrow> AgentId option \<Rightarrow> 'r AppState \<Rightarrow> 'r AppState" where
  "startGuide tour ctx s =
     (if isActive (guideState s) then s
      else s\<lparr>guideState := \<lparr>isActive = True, step = 0, tourId = Some tour, guide_context = ctx\<rparr>\<rparr>)"

definition prevGuideStep :: "'r AppState \<Rightarrow> 'r AppState" where
  "prevGuideStep s = s\<lparr>guideState := (guideState s)\<lparr>step := max 0 (step (guideState s) - 1)\<rparr>\<rparr>"

definition nextGuideStep :: "'r AppState \<Rightarrow> 'r AppState" where
  "nextGuideStep s = s\<lparr>guideState := (guideState s)\<lparr>step := step (guideState s) + 1\<rparr>\<rparr>"

text \<open>The id under which a finished tour is recorded. The three branches of the source
  are kept although the last two return the tour id itself.\<close>

definition uniqueTourId :: "string \<Rightarrow> AgentId option \<Rightarrow> string" where
  "uniqueTourId tour ctx =
     (if tour = ''mentor'' \<and> ctx \<noteq> None then ''mentor_'' @ AgentId_value (the ctx)
      else if tour = ''live_conversation'' then ''live_conversation''
      else if take 5 tour = ''tool_'' then tour
      else tour)"

definition endGuide :: "'r AppState \<Rightarrow> 'r AppState" where
  "endGuide s =
     (let tour = tourId (guideState s);
          ctx = guide_context (guideState s);
          s1 = s\<lparr>guideState := \<lparr>isActive = False, step = 0, tourId = None, guide_context = None\<rparr>,
                 completedTours :=
                   (case tour of
                      None \<Rightarrow> completedTours s
                    | Some t \<Rightarrow>
                        if t = [] then completedTours s
                        else if uniqueTourId t ctx \<in> set (completedTours s) then completedTours s
                        else completedTours s @ [uniqueTourId t ctx])\<rparr>
      in if tour = Some ''main'' then s1\<lparr>activeView := dashboard, isVoiceNavOpen := True\<rparr> else s1)"

datatype GuideAction = StartGuide string "AgentId option" | PrevGuideStep | NextGuideStep | EndGuide

fun guide_action :: "'r AppState \<Rightarrow> GuideAction \<Rightarrow> 'r AppState" where
  "guide_action s (StartGuide tour ctx) = startGuide tour ctx s"
| "guide_action s PrevGuideStep = prevGuideStep s"
| "guide_action s NextGuideStep = nextGuideStep s"
| "guide_action s EndGuide = endGuide s"

definition guide_run :: "'r AppState \<Rightarrow> GuideAction list \<Rightarrow> 'r AppState" where
  "guide_run s acts = foldl guide_action s acts"

lemma startGuide_step:
  "step (guideState (startGuide tour ctx s)) = (if isActive (guideState s) then step (guideState s) else 0)"
  by (simp add: startGuide_def)

lemma endGuide_step: "step (guideState (endGuide s)) = 0"
  by (simp add: endGuide_def Let_def)

lemma nextGuideStep_step: "step (guideState (nextGuideStep s)) = step (guideState s) + 1"
  by (simp add: nextGuideStep_def)

lemma prevGuideStep_step: "step (guideState (prevGuideStep s)) = max 0 (step (guideState s) - 1)"
  by (simp add: prevGuideStep_def)

lemma guide_action_nonneg:
  "0 \<le> step (guideState s) \<Longrightarrow> 0 \<le> step (guideState (guide_action s a))"
  by (cases a) (simp_all add: startGuide_step endGuide_step nextGuideStep_step prevGuideStep_step)

lemma guide_run_nonneg:
  "0 \<le> step (guideState s) \<Longrightarrow> 0 \<le> step (guideState (guide_run s acts))"
  unfolding guide_run_def
  by (induction acts arbitrary: s) (simp_all add: guide_action_nonneg)

lemma guide_run_next:
  "step (guideState (guide_run s (replicate n NextGuideStep))) = step (guideState s) + int n"
  unfolding guide_run_def
  by (induction n arbitrary: s) (simp_all add: nextGuideStep_step)

text \<open>
  Claim C10. \<open>guideState.step\<close> is never negative: \<open>startGuide\<close> (when no tour is
  active; otherwise it changes nothing) and \<open>endGuide\<close> set the step to 0,
  \<open>nextGuideStep\<close> adds 1, \<open>prevGuideStep\<close> takes \<open>max 0 (step - 1)\<close>; so every guide
  operation preserves \<open>0 \<le> step\<close>, and the step is non-negative after any sequence of
  guide operations from the initial store. No upper bound is enforced: \<open>n\<close> calls of
  \<open>nextGuideStep\<close> add \<open>n\<close>.
\<close>

theorem guide_step_never_negative:
  fixes s :: "'r AppState"
  shows "step (guideState (startGuide tour ctx s)) = (if isActive (guideState s) then step (guideState s) else 0)
   \<and> step (guideState (endGuide s)) = 0
   \<and> step (guideState (nextGuideStep s)) = step (guideState s) + 1
   \<and> step (guideState (prevGuideStep s)) = max 0 (step (guideState s) - 1)
   \<and> (0 \<le> step (guideState s) \<longrightarrow> 0 \<le> step (guideState (guide_action s a)))
   \<and> 0 \<le> step (guideState (guide_run (initialState :: 'r AppState) acts))
   \<and> step (guideState (guide_run s (replicate n NextGuideStep))) = step (guideState s) + int n"
proof (intro conjI impI)
  show "0 \<le> step (guideState (guide_run (initialState :: 'r AppState) acts))"
    by (rule guide_run_nonneg) (simp add: initialState_def)
qed (simp_all only: startGuide_step endGuide_step nextGuideStep_step prevGuideStep_step
      guide_action_nonneg guide_run_next)

theorem guide_step_never_negative_witness:
  "0 \<le> step (guideState (initialState :: unit AppState))
   \<and> step (guideState (guide_action (initialState :: unit AppState) PrevGuideStep)) = 0
   \<and> 0 \<le> step (guideState (guide_action (initialState :: unit AppState) PrevGuideStep))"
proof -
  have h: "0 \<le> step (guideState (initialState :: unit AppState))"
    by (simp add: initialState_def)
  from guide_step_never_negative[of _ _ "initialState :: unit AppState" PrevGuideStep]
  have "0 \<le> step (guideState (guide_action (initialState :: unit AppState) PrevGuideStep))"
    using h by blast
  moreover have "step (guideState (guide_action (initialState :: unit AppState) PrevGuideStep)) = 0"
    by (simp add: prevGuideStep_def initialState_def)
  ultimately show ?thesis using h by simp
qed

section \<open>Dates\<close>

text \<open>
  A \<open>Date\<close> is its time value, the milliseconds since the epoch. \<open>logActivity\<close> only
  compares the local calendar days of two instants; for that comparison local time is
  taken at the offset \<open>LocalTZA\<close> of the environment. (The date arithmetic of schedule
  completion, further down, works in a zone whose offset may change.) \<open>toDateString\<close>
  prints the local calendar day (weekday, month, day, year); the string is represented by
  the number of that day, which it determines and is determined by.
\<close>

definition msPerDay :: int where
  "msPerDay = 86400000"

definition LocalTime :: "'r Env \<Rightarrow> int \<Rightarrow> int" where
  "LocalTime env t = t + LocalTZA env"

definition Day :: "int \<Rightarrow> int" where
  "Day t = t div msPerDay"

definition TimeWithinDay :: "int \<Rightarrow> int" where
  "TimeWithinDay t = t mod msPerDay"

definition toDateString :: "'r Env \<Rightarrow> int \<Rightarrow> int" where
  "toDateString env t = Day (LocalTime env t)"

section \<open>Activity log: logActivity\<close>

text \<open>\<open>x ? new Date(x) : null\<close> on \<open>number | null\<close>: \<open>null\<close> and \<open>0\<close> are falsy.\<close>

definition truthy_timestamp :: "int option \<Rightarrow> int option" where
  "truthy_timestamp t = (case t of None \<Rightarrow> None | Some x \<Rightarrow> if x = 0 then None else Some x)"

text \<open>
  The recipe that \<open>logActivity\<close> hands to the store, on the draft. The toast raised when
  a quest completes is not part of the modelled state.
\<close>

definition logActivity :: "'r Env \<Rightarrow> 'r EntryData \<Rightarrow> 'r AppState \<Rightarrow> 'r AppState" where
  "logActivity env entryData draft =
     (let now = Date_now env;
          (newVector, pointsGained) = orchestrate env entryData (coherenceVector draft);
          newEntry =
            \<lparr>entry_id = activity_at now, timestamp = now, entry_agentId = data_agentId entryData,
             vectorSnapshot = newVector, entry_payload = data_payload entryData\<rparr>;
          unshifted = newEntry # activityLog draft;
          newRecommendation = getPicRecommendation newVector;
          questDone =
            (case activeQuest draft of
               None \<Rightarrow> False
             | Some q \<Rightarrow> \<not> isCompleted q \<and> Some (targetTool q) = data_toolId (data_payload entryData));
          lastDate = truthy_timestamp (lastActivityTimestamp draft);
          today = now
      in draft
         \<lparr>activityLog := (if length unshifted > 100 then take 100 unshifted else unshifted),
          coherenceVector := newVector,
          coherencePoints := coherencePoints draft + pointsGained,
          ucs := calculateUcs newVector,
          recommendation := Some (agentId newRecommendation),
          recommendationName := dimensionName newRecommendation,
          completedQuests :=
            (if questDone
             then (the (activeQuest draft))\<lparr>isCompleted := True, completionTimestamp := Some now\<rparr>
                    # completedQuests draft
             else completedQuests draft),
          activeQuest := (if questDone then None else activeQuest draft),
          coherenceStreak :=
            (if lastDate = None \<or> toDateString env (the lastDate) \<noteq> toDateString env today
             then (if lastDate \<noteq> None \<and> today - the lastDate < 2 * 24 * 60 * 60 * 1000
                   then coherenceStreak draft + 1
                   else 1)
             else coherenceStreak draft),
          lastActivityTimestamp := Some now\<rparr>)"

text \<open>The entry that a call creates, and a run of calls (each with its own clock).\<close>

definition logged_entry :: "'r Env \<Rightarrow> 'r EntryData \<Rightarrow> 'r AppState \<Rightarrow> 'r ActivityLogEntry" where
  "logged_entry env entryData s =
     \<lparr>entry_id = activity_at (Date_now env), timestamp = Date_now env,
      entry_agentId = data_agentId entryData,
      vectorSnapshot = fst (orchestrate env entryData (coherenceVector s)),
      entry_payload = data_payload entryData\<rparr>"

fun logActivities :: "('r Env \<times> 'r EntryData) list \<Rightarrow> 'r AppState \<Rightarrow> 'r AppState" where
  "logActivities [] s = s"
| "logActivities ((env, entryData) # calls) s = logActivities calls (logActivity env entryData s)"

fun logged_entries :: "('r Env \<times> 'r EntryData) list \<Rightarrow> 'r AppState \<Rightarrow> 'r ActivityLogEntry list" where
  "logged_entries [] s = []"
| "logged_entries ((env, entryData) # calls) s =
     logged_entry env entryData s # logged_entries calls (logActivity env entryData s)"

text \<open>An environment for concrete runs: the orchestrator raises the alignment by one
  (up to 100) and grants ten points; local time is three hours behind UTC.\<close>

definition demo_env :: "int \<Rightarrow> unit Env" where
  "demo_env now =
     \<lparr>orchestrate = (\<lambda>e v. (v\<lparr>alinhamentoPAC := min 100 (alinhamentoPAC v + 1)\<rparr>, 10)),
      summarizeToolResultForEngagement = (\<lambda>t r. None),
      summarizeForProactiveEngagement = (\<lambda>msgs. None),
      Date_now = now,
      LocalTZA = - 10800000\<rparr>"

definition demo_activity :: "unit EntryData" where
  "demo_activity = \<lparr>data_agentId = HEALTH, data_payload = tool_usage meditation ()\<rparr>"

section \<open>Properties of logActivity\<close>

lemma logActivity_activityLog:
  "activityLog (logActivity env entryData s) = take 100 (logged_entry env entryData s # activityLog s)"
  by (simp add: logActivity_def logged_entry_def Let_def split: prod.splits)

lemma logActivity_coherenceVector:
  "coherenceVector (logActivity env entryData s) = fst (orchestrate env entryData (coherenceVector s))"
  by (simp add: logActivity_def Let_def split: prod.splits)

lemma take_append_take: "take n (xs @ take n ys) = take n (xs @ ys)"
  by (simp add: min_def)

lemma length_logged_entries: "length (logged_entries calls s) = length calls"
  by (induction calls s rule: logged_entries.induct) simp_all

lemma logActivity_length_le: "length (activityLog (logActivity env entryData s)) \<le> 100"
  by (simp add: logActivity_activityLog)

lemma logActivities_capped:
  "length (activityLog s) \<le> 100 \<Longrightarrow>
   activityLog (logActivities calls s) = take 100 (rev (logged_entries calls s) @ activityLog s)"
proof (induction calls s rule: logActivities.induct)
  case (1 s)
  then show ?case by simp
next
  case (2 env entryData calls s)
  have "activityLog (logActivities ((env, entryData) # calls) s)
      = take 100 (rev (logged_entries calls (logActivity env entryData s))
                  @ take 100 (logged_entry env entryData s # activityLog s))"
    using 2(1)[OF logActivity_length_le] by (simp add: logActivity_activityLog)
  also have "\<dots> = take 100 (rev (logged_entries calls (logActivity env entryData s))
                  @ logged_entry env entryData s # activityLog s)"
    by (rule take_append_take)
  finally show ?case by simp
qed

lemma logActivities_activityLog:
  assumes "calls \<noteq> []"
  shows "activityLog (logActivities calls s) = take 100 (rev (logged_entries calls s) @ activityLog s)"
proof -
  from assms obtain env entryData rest where c: "calls = (env, entryData) # rest"
    by (cases calls) auto
  have "activityLog (logActivities rest (logActivity env entryData s))
      = take 100 (rev (logged_entries rest (logActivity env entryData s))
                  @ take 100 (logged_entry env entryData s # activityLog s))"
    using logActivities_capped[OF logActivity_length_le] by (simp add: logActivity_activityLog)
  also have "\<dots> = take 100 (rev (logged_entries rest (logActivity env entryData s))
                  @ logged_entry env entryData s # activityLog s)"
    by (rule take_append_take)
  finally show ?thesis by (simp add: c)
qed

lemma logActivities_over_cap:
  assumes "100 < length calls"
  shows "activityLog (logActivities calls s) = rev (drop (length calls - 100) (logged_entries calls s))"
    and "length (activityLog (logActivities calls s)) = 100"
proof -
  from assms have ne: "calls \<noteq> []" by auto
  have len: "length (logged_entries calls s) = length calls" by (rule length_logged_entries)
  have "activityLog (logActivities calls s) = take 100 (rev (logged_entries calls s))"
    using logActivities_activityLog[OF ne, of s] assms len by simp
  also have "\<dots> = rev (drop (length calls - 100) (logged_entries calls s))"
    by (simp add: take_rev len)
  finally show "activityLog (logActivities calls s) = rev (drop (length calls - 100) (logged_entries calls s))" .
  then show "length (activityLog (logActivities calls s)) = 100"
    using assms len by simp
qed

lemma logActivities_initial_le:
  "length (activityLog (logActivities calls (initialState :: 'r AppState))) \<le> 100"
proof -
  have "length (activityLog (initialState :: 'r AppState)) \<le> 100" by (simp add: initialState_def)
  from logActivities_capped[OF this] show ?thesis by simp
qed

text \<open>
  Claim C5. The activity log is most-recent-first and holds at most 100 entries: a call of
  \<open>logActivity\<close> puts the new entry in front and keeps the first 100; after any run of
  calls the log is the created entries, newest first, followed by the older log, cut at
  100; and after more than 100 calls it is exactly the 100 entries created last, newest
  first, everything older being dropped.
\<close>

theorem activityLog_most_recent_first_capped:
  fixes s :: "'r AppState"
  shows "activityLog (logActivity env entryData s) = take 100 (logged_entry env entryData s # activityLog s)
    \<and> length (activityLog (logActivity env entryData s)) \<le> 100
    \<and> length (activityLog (logActivities calls (initialState :: 'r AppState))) \<le> 100
    \<and> (calls \<noteq> [] \<longrightarrow>
          activityLog (logActivities calls s) = take 100 (rev (logged_entries calls s) @ activityLog s))
    \<and> (100 < length calls \<longrightarrow>
          activityLog (logActivities calls s) = rev (drop (length calls - 100) (logged_entries calls s))
          \<and> length (activityLog (logActivities calls s)) = 100)"
proof (intro conjI impI)
  show "activityLog (logActivity env entryData s) = take 100 (logged_entry env entryData s # activityLog s)"
    by (rule logActivity_activityLog)
  show "length (activityLog (logActivity env entryData s)) \<le> 100"
    by (rule logActivity_length_le)
  show "length (activityLog (logActivities calls (initialState :: 'r AppState))) \<le> 100"
    by (rule logActivities_initial_le)
  show "activityLog (logActivities calls s) = take 100 (rev (logged_entries calls s) @ activityLog s)"
    if "calls \<noteq> []" using that by (rule logActivities_activityLog)
  show "activityLog (logActivities calls s) = rev (drop (length calls - 100) (logged_entries calls s))"
    if "100 < length calls" using that by (rule logActivities_over_cap)
  show "length (activityLog (logActivities calls s)) = 100"
    if "100 < length calls" using that by (rule logActivities_over_cap)
qed

lemma timestamp_logged_entries:
  "map timestamp (logged_entries calls s) = map (\<lambda>c. Date_now (fst c)) calls"
  by (induction calls s rule: logged_entries.induct) (simp_all add: logged_entry_def)

definition demo_calls :: "(unit Env \<times> unit EntryData) list" where
  "demo_calls = map (\<lambda>n. (demo_env (int n), demo_activity)) [0..<101]"

theorem activityLog_most_recent_first_capped_witness:
  "demo_calls \<noteq> [] \<and> 100 < length demo_calls
   \<and> length (activityLog (logActivities demo_calls initialState)) = 100
   \<and> map timestamp (activityLog (logActivities demo_calls initialState)) = rev (map int [1..<101])"
proof -
  have ne: "demo_calls \<noteq> []" and len: "100 < length demo_calls" "length demo_calls - 100 = 1"
    by (simp_all add: demo_calls_def)
  have "100 < length demo_calls \<longrightarrow>
      activityLog (logActivities demo_calls initialState)
        = rev (drop (length demo_calls - 100) (logged_entries demo_calls initialState))
      \<and> length (activityLog (logActivities demo_calls initialState)) = 100"
    using activityLog_most_recent_first_capped[of "demo_env 0" demo_activity initialState demo_calls]
    by blast
  with len(1) have both: "activityLog (logActivities demo_calls initialState)
        = rev (drop (length demo_calls - 100) (logged_entries demo_calls initialState))
      \<and> length (activityLog (logActivities demo_calls initialState)) = 100"
    by blast
  from both have log: "activityLog (logActivities demo_calls initialState)
      = rev (drop 1 (logged_entries demo_calls initialState))"
    unfolding len(2) by blast
  from both have l100: "length (activityLog (logActivities demo_calls initialState)) = 100"
    by blast
  have "map timestamp (activityLog (logActivities demo_calls initialState))
      = rev (drop 1 (map (\<lambda>c. Date_now (fst c)) demo_calls))"
    unfolding log by (simp only: rev_map[symmetric] drop_map[symmetric] timestamp_logged_entries)
  also have "\<dots> = rev (map int [1..<101])"
    by (simp add: demo_calls_def drop_map demo_env_def comp_def)
  finally show ?thesis using ne len l100 by simp
qed

lemma logActivity_hd:
  "activityLog (logActivity env entryData s) \<noteq> []
   \<and> hd (activityLog (logActivity env entryData s)) = logged_entry env entryData s"
  by (simp add: logActivity_activityLog)

text \<open>
  Claim C6. For every call of \<open>logActivity\<close>, the entry it creates is the head of the log
  and its \<open>vectorSnapshot\<close> equals the store's \<open>coherenceVector\<close> right after the call: the
  vector that the orchestrator returned for this activity. So whenever the orchestrator
  changes the vector, the snapshot is not the vector from before the activity.
\<close>

theorem vectorSnapshot_is_post_activity_vector:
  "activityLog (logActivity env entryData s) \<noteq> []
   \<and> hd (activityLog (logActivity env entryData s)) = logged_entry env entryData s
   \<and> vectorSnapshot (hd (activityLog (logActivity env entryData s)))
       = coherenceVector (logActivity env entryData s)
   \<and> coherenceVector (logActivity env entryData s)
       = fst (orchestrate env entryData (coherenceVector s))
   \<and> (fst (orchestrate env entryData (coherenceVector s)) \<noteq> coherenceVector s \<longrightarrow>
        vectorSnapshot (hd (activityLog (logActivity env entryData s))) \<noteq> coherenceVector s)"
  by (simp add: logActivity_hd logActivity_coherenceVector logged_entry_def)

theorem vectorSnapshot_is_post_activity_vector_witness:
  "fst (orchestrate (demo_env 1000) demo_activity (coherenceVector (initialState :: unit AppState)))
     \<noteq> coherenceVector (initialState :: unit AppState)
   \<and> vectorSnapshot (hd (activityLog (logActivity (demo_env 1000) demo_activity initialState)))
       \<noteq> coherenceVector (initialState :: unit AppState)
   \<and> alinhamentoPAC (vectorSnapshot (hd (activityLog (logActivity (demo_env 1000) demo_activity initialState))))
       = 71"
proof -
  have post: "fst (orchestrate (demo_env 1000) demo_activity (coherenceVector (initialState :: unit AppState)))
      = initialVector\<lparr>alinhamentoPAC := 71\<rparr>"
    by (simp add: demo_env_def initialState_def initialVector_def)
  have pre: "coherenceVector (initialState :: unit AppState) = initialVector"
    by (simp add: initialState_def)
  have h: "fst (orchestrate (demo_env 1000) demo_activity (coherenceVector (initialState :: unit AppState)))
      \<noteq> coherenceVector (initialState :: unit AppState)"
  proof
    assume "fst (orchestrate (demo_env 1000) demo_activity (coherenceVector (initialState :: unit AppState)))
      = coherenceVector (initialState :: unit AppState)"
    then have "alinhamentoPAC (fst (orchestrate (demo_env 1000) demo_activity (coherenceVector (initialState :: unit AppState))))
      = alinhamentoPAC (coherenceVector (initialState :: unit AppState))"
      by simp
    then show False
      by (simp add: demo_env_def initialState_def initialVector_def)
  qed
  note inst = vectorSnapshot_is_post_activity_vector[of "demo_env 1000" demo_activity initialState]
  from inst have c: "vectorSnapshot (hd (activityLog (logActivity (demo_env 1000) demo_activity initialState)))
        = coherenceVector (logActivity (demo_env 1000) demo_activity initialState)"
    by blast
  from inst have d: "coherenceVector (logActivity (demo_env 1000) demo_activity initialState)
        = fst (orchestrate (demo_env 1000) demo_activity (coherenceVector (initialState :: unit AppState)))"
    by blast
  from inst h have ne: "vectorSnapshot (hd (activityLog (logActivity (demo_env 1000) demo_activity initialState)))
        \<noteq> coherenceVector (initialState :: unit AppState)"
    by blast
  from c d have snap: "vectorSnapshot (hd (activityLog (logActivity (demo_env 1000) demo_activity initialState)))
        = fst (orchestrate (demo_env 1000) demo_activity (coherenceVector (initialState :: unit AppState)))"
    by (rule trans)
  from snap have "alinhamentoPAC (vectorSnapshot (hd (activityLog (logActivity (demo_env 1000) demo_activity initialState)))) = 71"
    unfolding post by simp
  with h ne show ?thesis by simp
qed

section \<open>The daily streak\<close>






section \<open>Session lifecycle: endSession\<close>

fun is_agent_session :: "SessionType \<Rightarrow> bool" where
  "is_agent_session (agent_session a) = True"
| "is_agent_session (other_session t) = False"

text \<open>A voice-started session that is not a text chat returns to the voice navigator.\<close>

definition shouldOpenVoiceNav :: "CurrentSession \<Rightarrow> bool" where
  "shouldOpenVoiceNav session =
     (origin session = Some origin_voice
      \<and> \<not> (is_agent_session (session_type session) \<and> mode session = Some mode_text))"

text \<open>The two fixed prompts, as the UTF-8 bytes of the source's strings.\<close>

definition prompt_what_now :: string where
  "prompt_what_now = ''O que voc'' @ [CHR 0xC3, CHR 0xAA] @ '' gostaria de fazer agora?''"

definition prompt_session_closed :: string where
  "prompt_session_closed =
     ''Sess'' @ [CHR 0xC3, CHR 0xA3] @ ''o encerrada. O que voc'' @ [CHR 0xC3, CHR 0xAA]
       @ '' gostaria de fazer a seguir?''"

text \<open>
  The text that the voice navigator is to show, \<open>None\<close> when the awaited summary is
  rejected (the \<open>catch\<close> branch then stores \<open>null\<close>).
\<close>

definition proactiveContext ::
  "'r Env \<Rightarrow> CurrentSession \<Rightarrow> bool \<Rightarrow> (ToolId \<times> 'r) option \<Rightarrow> 'r AppState \<Rightarrow> string option" where
  "proactiveContext env session isManualExit toolResult s =
     (if \<not> is_agent_session (session_type session) \<and> toolResult \<noteq> None
      then summarizeToolResultForEngagement env (fst (the toolResult)) (snd (the toolResult))
      else (case session_type session of
              agent_session aid \<Rightarrow>
                if mode session = Some mode_voice \<and> isManualExit
                then (let history = chatHistories s aid
                      in if length history > 0 then summarizeForProactiveEngagement env history
                         else Some prompt_what_now)
                else Some prompt_session_closed
            | other_session t \<Rightarrow> Some prompt_session_closed))"

text \<open>
  \<open>endSession\<close>. The awaited summary is taken at once: what the user does while it is
  pending is not modelled, so the navigator opened two lines earlier is still open when
  the staleness guard reads it.
\<close>

definition endSession ::
  "'r Env \<Rightarrow> bool \<Rightarrow> (ToolId \<times> 'r) option \<Rightarrow> 'r AppState \<Rightarrow> 'r AppState" where
  "endSession env isManualExit toolResult s =
     (case currentSession s of
        None \<Rightarrow> s
      | Some session \<Rightarrow>
          if shouldOpenVoiceNav session
          then (let s1 = s\<lparr>currentSession := None, isVoiceNavOpen := True,
                           proactiveNavContext := Some ''loading''\<rparr>
                in if isVoiceNavOpen s1
                   then s1\<lparr>proactiveNavContext := proactiveContext env session isManualExit toolResult s1\<rparr>
                   else s1)
          else (let s1 =
                      (case session_type session of
                         agent_session aid \<Rightarrow>
                           (let history = chatHistories s aid
                            in if length history > 1
                               then logActivity env
                                      \<lparr>data_agentId = aid, data_payload = chat_session history\<rparr> s
                               else s)
                       | other_session t \<Rightarrow> s)
                in s1\<lparr>currentSession := None, reconnectionAgentId := None,
                      proactiveNavContext := None\<rparr>))"

text \<open>Stores for concrete runs: a mentor chat with the coherence agent.\<close>

definition greeting :: Message where
  "greeting = \<lparr>message_id = ''agent-initial-coherence'', sender = sender_agent,
                message_text = ''Bem-vindo'', message_timestamp = 1000\<rparr>"

definition reply :: Message where
  "reply = \<lparr>message_id = ''user-2000'', sender = sender_user,
             message_text = ''Oi'', message_timestamp = 2000\<rparr>"

definition chat_state :: "Mode option \<Rightarrow> Origin \<Rightarrow> Message list \<Rightarrow> unit AppState" where
  "chat_state m orig history =
     initialState
       \<lparr>currentSession := Some \<lparr>session_type = agent_session COHERENCE, mode = m, origin = Some orig\<rparr>,
        chatHistories := (\<lambda>a. if a = COHERENCE then history else [])\<rparr>"

section \<open>Properties of endSession\<close>

lemma endSession_voice_path:
  "currentSession s = Some session \<Longrightarrow> shouldOpenVoiceNav session \<Longrightarrow>
   activityLog (endSession env isManualExit toolResult s) = activityLog s"
  by (simp add: endSession_def Let_def)

lemma endSession_short_history:
  "currentSession s = Some session \<Longrightarrow> session_type session = agent_session aid \<Longrightarrow>
   length (chatHistories s aid) \<le> 1 \<Longrightarrow>
   activityLog (endSession env isManualExit toolResult s) = activityLog s"
  by (simp add: endSession_def Let_def)

lemma endSession_manual_logs:
  "currentSession s = Some session \<Longrightarrow> session_type session = agent_session aid \<Longrightarrow>
   \<not> shouldOpenVoiceNav session \<Longrightarrow> 2 \<le> length (chatHistories s aid) \<Longrightarrow>
   activityLog (endSession env isManualExit toolResult s)
     = take 100 (\<lparr>entry_id = activity_at (Date_now env), timestamp = Date_now env,
                  entry_agentId = aid,
                  vectorSnapshot = coherenceVector (endSession env isManualExit toolResult s),
                  entry_payload = chat_session (chatHistories s aid)\<rparr> # activityLog s)"
  by (simp add: endSession_def Let_def logActivity_activityLog logged_entry_def
      logActivity_coherenceVector)

lemma endSession_closes:
  "currentSession (endSession env isManualExit toolResult s) = None"
  by (simp add: endSession_def Let_def split: option.splits)

text \<open>
  Claim C2, as stated, fails: a mentor chat that was started by voice and is in voice mode
  returns to the voice navigator when it ends, and no entry is created although its
  history holds two messages.
\<close>

theorem endSession_voice_chat_not_logged:
  "currentSession (chat_state (Some mode_voice) origin_voice [greeting, reply])
     = Some \<lparr>session_type = agent_session COHERENCE, mode = Some mode_voice, origin = Some origin_voice\<rparr>
   \<and> length (chatHistories (chat_state (Some mode_voice) origin_voice [greeting, reply]) COHERENCE) = 2
   \<and> activityLog (endSession (demo_env 3000) True None
        (chat_state (Some mode_voice) origin_voice [greeting, reply])) = []
   \<and> isVoiceNavOpen (endSession (demo_env 3000) True None
        (chat_state (Some mode_voice) origin_voice [greeting, reply]))"
  by (simp add: chat_state_def initialState_def endSession_def shouldOpenVoiceNav_def Let_def)

lemma shouldOpenVoiceNav_agent:
  "session_type session = agent_session aid \<Longrightarrow>
   shouldOpenVoiceNav session
     = (origin session = Some origin_voice \<and> mode session \<noteq> Some mode_text)"
  by (simp add: shouldOpenVoiceNav_def)

lemma endSession_opens_nav:
  "currentSession s = Some session \<Longrightarrow> shouldOpenVoiceNav session \<Longrightarrow>
   isVoiceNavOpen (endSession env isManualExit toolResult s)"
  by (simp add: endSession_def Let_def)

lemma logActivity_isVoiceNavOpen:
  "isVoiceNavOpen (logActivity env entryData s) = isVoiceNavOpen s"
  by (simp add: logActivity_def Let_def split: prod.splits)

lemma endSession_manual_nav:
  "currentSession s = Some session \<Longrightarrow> \<not> shouldOpenVoiceNav session \<Longrightarrow>
   isVoiceNavOpen (endSession env isManualExit toolResult s) = isVoiceNavOpen s"
  by (simp add: endSession_def Let_def logActivity_isVoiceNavOpen split: SessionType.splits)

text \<open>
  Claim C2, amended. Ending a mentor chat session whose history holds at most one message
  (the seeded greeting) creates no entry. Ending a mentor chat session whose origin is not
  voice, or which is a text chat, with two or more messages puts in front of the log
  (then cut at 100) an entry for that agent that carries the whole transcript and the
  vector after the activity, and leaves the voice navigator as it was. Ending a mentor
  chat session whose origin is voice and which is not a text chat opens the voice
  navigator and creates no entry, whatever its history. In every case the session is
  closed.
\<close>

theorem endSession_chat_logging:
  assumes "currentSession s = Some session"
    and "session_type session = agent_session aid"
  shows "(length (chatHistories s aid) \<le> 1 \<longrightarrow>
            activityLog (endSession env isManualExit toolResult s) = activityLog s)
    \<and> ((origin session \<noteq> Some origin_voice \<or> mode session = Some mode_text)
          \<and> 2 \<le> length (chatHistories s aid) \<longrightarrow>
            activityLog (endSession env isManualExit toolResult s)
              = take 100 (\<lparr>entry_id = activity_at (Date_now env), timestamp = Date_now env,
                           entry_agentId = aid,
                           vectorSnapshot = coherenceVector (endSession env isManualExit toolResult s),
                           entry_payload = chat_session (chatHistories s aid)\<rparr> # activityLog s)
            \<and> isVoiceNavOpen (endSession env isManualExit toolResult s) = isVoiceNavOpen s)
    \<and> (origin session = Some origin_voice \<and> mode session \<noteq> Some mode_text \<longrightarrow>
            activityLog (endSession env isManualExit toolResult s) = activityLog s
            \<and> isVoiceNavOpen (endSession env isManualExit toolResult s))
    \<and> currentSession (endSession env isManualExit toolResult s) = None"
proof (intro conjI impI)
  note sh = shouldOpenVoiceNav_agent[OF assms(2)]
  show "activityLog (endSession env isManualExit toolResult s) = activityLog s"
    if "length (chatHistories s aid) \<le> 1"
    using assms that by (rule endSession_short_history)
  show "activityLog (endSession env isManualExit toolResult s)
      = take 100 (\<lparr>entry_id = activity_at (Date_now env), timestamp = Date_now env,
                   entry_agentId = aid,
                   vectorSnapshot = coherenceVector (endSession env isManualExit toolResult s),
                   entry_payload = chat_session (chatHistories s aid)\<rparr> # activityLog s)"
    if "(origin session \<noteq> Some origin_voice \<or> mode session = Some mode_text)
          \<and> 2 \<le> length (chatHistories s aid)"
    using that sh by (intro endSession_manual_logs[OF assms]) auto
  show "isVoiceNavOpen (endSession env isManualExit toolResult s) = isVoiceNavOpen s"
    if "(origin session \<noteq> Some origin_voice \<or> mode session = Some mode_text)
          \<and> 2 \<le> length (chatHistories s aid)"
    using that sh by (intro endSession_manual_nav[OF assms(1)]) auto
  show "activityLog (endSession env isManualExit toolResult s) = activityLog s"
    if "origin session = Some origin_voice \<and> mode session \<noteq> Some mode_text"
    using that sh by (intro endSession_voice_path[OF assms(1)]) auto
  show "isVoiceNavOpen (endSession env isManualExit toolResult s)"
    if "origin session = Some origin_voice \<and> mode session \<noteq> Some mode_text"
    using that sh by (intro endSession_opens_nav[OF assms(1)]) auto
  show "currentSession (endSession env isManualExit toolResult s) = None"
    by (rule endSession_closes)
qed

theorem endSession_chat_logging_witness:
  "activityLog (endSession (demo_env 3000) True None (chat_state (Some mode_text) origin_manual [greeting]))
     = []
   \<and> map entry_payload (activityLog (endSession (demo_env 3000) True None
        (chat_state (Some mode_text) origin_manual [greeting, reply])))
     = [chat_session [greeting, reply]]
   \<and> isVoiceNavOpen (endSession (demo_env 3000) True None
        (chat_state (Some mode_text) origin_manual [greeting, reply])) = False
   \<and> activityLog (endSession (demo_env 3000) True None
        (chat_state None origin_voice [greeting, reply])) = []
   \<and> isVoiceNavOpen (endSession (demo_env 3000) True None
        (chat_state None origin_voice [greeting, reply]))"
proof -
  let ?sess = "\<lambda>m orig. \<lparr>session_type = agent_session COHERENCE, mode = m, origin = Some orig\<rparr>"
  have cur: "\<And>m orig h. currentSession (chat_state m orig h) = Some (?sess m orig)"
    and hist: "\<And>m orig h. chatHistories (chat_state m orig h) COHERENCE = h"
    and log0: "\<And>m orig h. activityLog (chat_state m orig h) = []"
    and nav0: "\<And>m orig h. isVoiceNavOpen (chat_state m orig h) = False"
    by (simp_all add: chat_state_def initialState_def)
  have "activityLog (endSession (demo_env 3000) True None (chat_state (Some mode_text) origin_manual [greeting])) = []"
    using endSession_chat_logging[where s="chat_state (Some mode_text) origin_manual [greeting]"
        and session="?sess (Some mode_text) origin_manual" and aid=COHERENCE and env="demo_env 3000"
        and isManualExit=True and toolResult=None]
    by (simp add: cur hist log0)
  moreover have "map entry_payload (activityLog (endSession (demo_env 3000) True None
        (chat_state (Some mode_text) origin_manual [greeting, reply])))
     = [chat_session [greeting, reply]]
     \<and> isVoiceNavOpen (endSession (demo_env 3000) True None
        (chat_state (Some mode_text) origin_manual [greeting, reply])) = False"
    using endSession_chat_logging[where s="chat_state (Some mode_text) origin_manual [greeting, reply]"
        and session="?sess (Some mode_text) origin_manual" and aid=COHERENCE and env="demo_env 3000"
        and isManualExit=True and toolResult=None]
    by (simp add: cur hist log0 nav0)
  moreover have "activityLog (endSession (demo_env 3000) True None
        (chat_state None origin_voice [greeting, reply])) = []
     \<and> isVoiceNavOpen (endSession (demo_env 3000) True None
        (chat_state None origin_voice [greeting, reply]))"
    using endSession_chat_logging[where s="chat_state None origin_voice [greeting, reply]"
        and session="?sess None origin_voice" and aid=COHERENCE and env="demo_env 3000"
        and isManualExit=True and toolResult=None]
    by (simp add: cur hist log0)
  ultimately show ?thesis by simp
qed

section \<open>Schedule completion: handleScheduleCompletion\<close>

text \<open>
  The \<open>Date\<close> methods that the routine calls work in the local time zone of the browser.
  After the ECMAScript definitions, a zone gives the offset of local time from UTC, in
  milliseconds, that is in force at an instant (\<open>LocalTZA(t, true)\<close>), and the offset
  with which a local time value is read back as an instant (\<open>LocalTZA(t, false)\<close>). The
  two differ around a transition: a local time that a transition skips or repeats is read
  with the offset in force before the transition.
\<close>

record TimeZone =
  offset_at :: "int \<Rightarrow> int"
  offset_of_local :: "int \<Rightarrow> int"

definition local_time :: "TimeZone \<Rightarrow> int \<Rightarrow> int" where
  "local_time tz t = t + offset_at tz t"

definition utc_time :: "TimeZone \<Rightarrow> int \<Rightarrow> int" where
  "utc_time tz t = t - offset_of_local tz t"

text \<open>A zone without transitions, and the zone of New York with its two transitions of
  2023: daylight-saving time (UTC-4) from 12 March 07:00 UTC to 5 November 06:00 UTC,
  standard time (UTC-5) otherwise. In local time values the skipped hour is
  02:00-03:00 of 12 March and the repeated hour 01:00-02:00 of 5 November.\<close>

definition fixed_zone :: "int \<Rightarrow> TimeZone" where
  "fixed_zone z = \<lparr>offset_at = (\<lambda>t. z), offset_of_local = (\<lambda>t. z)\<rparr>"

definition new_york_2023 :: TimeZone where
  "new_york_2023 =
     \<lparr>offset_at = (\<lambda>t. if 1678604400000 \<le> t \<and> t < 1699164000000 then - 14400000 else - 18000000),
      offset_of_local =
        (\<lambda>t. if 1678590000000 \<le> t \<and> t < 1699149600000 then - 14400000 else - 18000000)\<rparr>"

text \<open>
  \<open>DateFromTime\<close> is the day of the month of a local time value (proleptic Gregorian
  calendar); \<open>WeekDay\<close> counts from Sunday = 0, the epoch being a Thursday. \<open>setDate\<close>
  rebuilds the time value from the first day of the month of the local time, the new day
  of the month (which may run past the month's end) and the unchanged time within the
  day, and reads the result back as an instant. Time values beyond the range of \<open>Date\<close>
  are not modelled.
\<close>

definition DateFromTime :: "int \<Rightarrow> int" where
  "DateFromTime t =
     (let z = Day t + 719468;
          doe = z mod 146097;
          yoe = (doe - doe div 1460 + doe div 36524 - doe div 146096) div 365;
          doy = doe - (365 * yoe + yoe div 4 - yoe div 100);
          mp = (5 * doy + 2) div 153
      in doy - (153 * mp + 2) div 5 + 1)"

definition WeekDay :: "int \<Rightarrow> int" where
  "WeekDay t = (Day t + 4) mod 7"

definition getDate :: "TimeZone \<Rightarrow> int \<Rightarrow> int" where
  "getDate tz t = DateFromTime (local_time tz t)"

definition getDay :: "TimeZone \<Rightarrow> int \<Rightarrow> int" where
  "getDay tz t = WeekDay (local_time tz t)"

definition MakeDate :: "int \<Rightarrow> int \<Rightarrow> int" where
  "MakeDate day tm = day * msPerDay + tm"

definition setDate :: "TimeZone \<Rightarrow> int \<Rightarrow> int \<Rightarrow> int" where
  "setDate tz t dt =
     (let local = local_time tz t;
          firstOfMonth = Day local - (DateFromTime local - 1)
      in utc_time tz (MakeDate (firstOfMonth + dt - 1) (TimeWithinDay local)))"

text \<open>
  The catch-up loop. \<open>Date.now()\<close> is read once for the whole call. Nothing in the code
  bounds the loop: in a zone where advancing the date does not advance the instant it
  does not return, and the result is \<open>None\<close>.
\<close>

partial_function (option) catch_up :: "TimeZone \<Rightarrow> int \<Rightarrow> Recurrence \<Rightarrow> int \<Rightarrow> int option" where
  "catch_up tz now r nextTime =
     (if nextTime \<le> now
      then (if r = daily then catch_up tz now r (setDate tz nextTime (getDate tz nextTime + 1))
            else if r = weekly then catch_up tz now r (setDate tz nextTime (getDate tz nextTime + 7))
            else Some nextTime)
      else Some nextTime)"

declare catch_up.simps [code]

definition next_occurrence :: "TimeZone \<Rightarrow> int \<Rightarrow> Schedule \<Rightarrow> int option" where
  "next_occurrence tz now schedule =
     (let currentTime = time schedule;
          nextTime = time schedule;
          nextTime1 =
            (if recurrence schedule = daily
             then setDate tz nextTime (getDate tz currentTime + 1)
             else if recurrence schedule = weekly
             then setDate tz nextTime (getDate tz currentTime + 7)
             else if recurrence schedule = custom \<and> recurrenceDays schedule \<noteq> None
                     \<and> length (the (recurrenceDays schedule)) > 0
             then (let sortedDays = sort (the (recurrenceDays schedule));
                       currentDay = getDay tz currentTime;
                       daysToAdd =
                         (case find (\<lambda>d. d > currentDay) sortedDays of
                            Some nextDay \<Rightarrow> nextDay - currentDay
                          | None \<Rightarrow> (7 - currentDay) + hd sortedDays)
                   in setDate tz nextTime (getDate tz currentTime + daysToAdd))
             else nextTime)
      in catch_up tz now (recurrence schedule) nextTime1)"

definition complete_schedule :: "TimeZone \<Rightarrow> int \<Rightarrow> Schedule \<Rightarrow> Schedule option" where
  "complete_schedule tz now schedule =
     (if recurrence schedule = none then Some (schedule\<lparr>status := completed\<rparr>)
      else map_option (\<lambda>t. schedule\<lparr>time := t\<rparr>) (next_occurrence tz now schedule))"

text \<open>The draft mutation of the element that \<open>Array.prototype.find\<close> returns: the first
  element that satisfies the predicate is replaced, the others stay.\<close>

fun update_first :: "('a \<Rightarrow> bool) \<Rightarrow> ('a \<Rightarrow> 'a) \<Rightarrow> 'a list \<Rightarrow> 'a list" where
  "update_first P f [] = []"
| "update_first P f (x # xs) = (if P x then f x # xs else x # update_first P f xs)"

text \<open>The action, with the zone of the browser and the value of \<open>Date.now()\<close>; \<open>None\<close> when
  the catch-up loop does not return.\<close>

definition handleScheduleCompletion ::
  "TimeZone \<Rightarrow> int \<Rightarrow> string \<Rightarrow> 'r AppState \<Rightarrow> 'r AppState option" where
  "handleScheduleCompletion tz now scheduleId s =
     (case find (\<lambda>sc. schedule_id sc = scheduleId) (schedules s) of
        None \<Rightarrow> Some s
      | Some schedule \<Rightarrow>
          map_option
            (\<lambda>schedule'. s\<lparr>schedules :=
                update_first (\<lambda>sc. schedule_id sc = scheduleId) (\<lambda>sc. schedule') (schedules s)\<rparr>)
            (complete_schedule tz now schedule))"

text \<open>The instant \<open>i\<close> calendar days after a schedule's time at the same local wall-clock
  time, as the zone reads that local time.\<close>

definition occurrence :: "TimeZone \<Rightarrow> Schedule \<Rightarrow> nat \<Rightarrow> int" where
  "occurrence tz sc i = utc_time tz (local_time tz (time sc) + int i * msPerDay)"

section \<open>Properties of schedule completion\<close>

lemma setDate_getDate:
  "setDate tz t (getDate tz t + n) = utc_time tz (local_time tz t + n * msPerDay)"
proof -
  let ?l = "local_time tz t"
  have "MakeDate (Day ?l - (DateFromTime ?l - 1) + (DateFromTime ?l + n) - 1) (TimeWithinDay ?l)
      = (?l div msPerDay * msPerDay + ?l mod msPerDay) + n * msPerDay"
    by (simp add: MakeDate_def Day_def TimeWithinDay_def algebra_simps)
  also have "\<dots> = ?l + n * msPerDay" by simp
  finally show ?thesis by (simp add: setDate_def getDate_def Let_def)
qed

lemma catch_up_daily:
  assumes wall: "\<forall>i. 1 \<le> i \<and> i \<le> K \<longrightarrow>
        local_time tz (occurrence tz sc i) = local_time tz (time sc) + int i * msPerDay"
    and "1 \<le> i" and "i \<le> K" and "now < occurrence tz sc K"
  shows "\<exists>k. i \<le> k \<and> k \<le> K
      \<and> catch_up tz now daily (occurrence tz sc i) = Some (occurrence tz sc k)
      \<and> now < occurrence tz sc k
      \<and> (\<forall>j. i \<le> j \<and> j < k \<longrightarrow> occurrence tz sc j \<le> now)"
  using assms(2,3)
proof (induction "K - i" arbitrary: i)
  case 0
  then have "i = K" by simp
  with assms(4) have "catch_up tz now daily (occurrence tz sc i) = Some (occurrence tz sc i)"
    by (subst catch_up.simps) simp
  with \<open>i = K\<close> assms(4) show ?case by (intro exI[of _ i]) simp
next
  case (Suc n)
  show ?case
  proof (cases "now < occurrence tz sc i")
    case True
    then have "catch_up tz now daily (occurrence tz sc i) = Some (occurrence tz sc i)"
      by (subst catch_up.simps) simp
    with True Suc.prems show ?thesis by (intro exI[of _ i]) simp
  next
    case False
    have "local_time tz (occurrence tz sc i) = local_time tz (time sc) + int i * msPerDay"
      using wall Suc.prems by simp
    then have "setDate tz (occurrence tz sc i) (getDate tz (occurrence tz sc i) + 1)
        = utc_time tz (local_time tz (time sc) + int i * msPerDay + 1 * msPerDay)"
      by (simp only: setDate_getDate)
    also have "\<dots> = occurrence tz sc (Suc i)"
      by (simp add: occurrence_def algebra_simps)
    finally have next_i: "setDate tz (occurrence tz sc i) (getDate tz (occurrence tz sc i) + 1)
        = occurrence tz sc (Suc i)" .
    have step: "catch_up tz now daily (occurrence tz sc i)
        = catch_up tz now daily (occurrence tz sc (Suc i))"
      using False by (subst catch_up.simps) (simp add: next_i)
    from Suc.hyps(2) Suc.prems have "n = K - Suc i" "1 \<le> Suc i" "Suc i \<le> K" by simp_all
    from Suc.hyps(1)[OF this] obtain k where
      k: "Suc i \<le> k" "k \<le> K"
        "catch_up tz now daily (occurrence tz sc (Suc i)) = Some (occurrence tz sc k)"
        "now < occurrence tz sc k"
        "\<forall>j. Suc i \<le> j \<and> j < k \<longrightarrow> occurrence tz sc j \<le> now"
      by blast
    have "\<forall>j. i \<le> j \<and> j < k \<longrightarrow> occurrence tz sc j \<le> now"
    proof (intro allI impI)
      fix j assume "i \<le> j \<and> j < k"
      then consider "j = i" | "Suc i \<le> j \<and> j < k" by linarith
      then show "occurrence tz sc j \<le> now"
        using False k(5) by cases auto
    qed
    with k step show ?thesis by (intro exI[of _ k]) simp
  qed
qed

lemma next_occurrence_daily:
  assumes "recurrence sc = daily"
    and "1 \<le> K" and "now < occurrence tz sc K"
    and wall: "\<forall>i. 1 \<le> i \<and> i \<le> K \<longrightarrow>
        local_time tz (occurrence tz sc i) = local_time tz (time sc) + int i * msPerDay"
  shows "\<exists>k. 1 \<le> k \<and> k \<le> K \<and> next_occurrence tz now sc = Some (occurrence tz sc k)
      \<and> now < occurrence tz sc k
      \<and> (\<forall>j. 1 \<le> j \<and> j < k \<longrightarrow> occurrence tz sc j \<le> now)"
proof -
  have "next_occurrence tz now sc = catch_up tz now daily (occurrence tz sc 1)"
    using assms(1) by (simp add: next_occurrence_def Let_def setDate_getDate occurrence_def)
  moreover from catch_up_daily[where i=1 and K=K, OF wall] assms(2,3) obtain k where
    "1 \<le> k" "k \<le> K" "catch_up tz now daily (occurrence tz sc 1) = Some (occurrence tz sc k)"
    "now < occurrence tz sc k" "\<forall>j. 1 \<le> j \<and> j < k \<longrightarrow> occurrence tz sc j \<le> now"
    by auto
  ultimately show ?thesis by auto
qed

lemma catch_up_future: "now < t \<Longrightarrow> catch_up tz now r t = Some t"
  by (subst catch_up.simps) simp

lemma find_update_first:
  "find P xs = Some x \<Longrightarrow> P (f x) \<Longrightarrow> find P (update_first P f xs) = Some (f x)"
  by (induction xs) (auto split: if_splits)

lemma local_day_shift:
  "Day (l + int k * msPerDay) = Day l + int k"
  "TimeWithinDay (l + int k * msPerDay) = TimeWithinDay l"
  by (simp_all add: Day_def TimeWithinDay_def msPerDay_def)

text \<open>
  Claim C7, as stated, fails in a zone with daylight-saving time. In New York, a daily
  schedule for 12:00 on 4 November 2023 (16:00 UTC), completed that afternoon, moves to
  12:00 on 5 November, which is 17:00 UTC: 25 hours later, not a whole number of days
  after the original instant. And a daily schedule for 02:30 on 11 March 2023, completed
  that day, moves to the instant 24 hours later, which the zone shows as 03:30 on 12
  March, because 02:30 does not exist on that day: not the same time of day.
\<close>

definition noon_reminder :: Schedule where
  "noon_reminder =
     \<lparr>schedule_id = ''schedule-noon'', activity = meditation, time = 1699113600000,
      status = scheduled, recurrence = daily, recurrenceDays = None\<rparr>"

definition night_reminder :: Schedule where
  "night_reminder =
     \<lparr>schedule_id = ''schedule-night'', activity = guided_prayer, time = 1678519800000,
      status = scheduled, recurrence = daily, recurrenceDays = None\<rparr>"

definition reminders_state :: "unit AppState" where
  "reminders_state = initialState\<lparr>schedules := [noon_reminder, night_reminder]\<rparr>"

theorem daily_schedule_across_dst:
  "map_option schedules
     (handleScheduleCompletion new_york_2023 1699120000000 ''schedule-noon'' reminders_state)
     = Some [noon_reminder\<lparr>time := 1699203600000\<rparr>, night_reminder]
   \<and> time noon_reminder = 1699113600000
   \<and> (1699203600000 - 1699113600000) mod msPerDay = 3600000
   \<and> map_option schedules
     (handleScheduleCompletion new_york_2023 1678530000000 ''schedule-night'' reminders_state)
     = Some [noon_reminder, night_reminder\<lparr>time := 1678606200000\<rparr>]
   \<and> time night_reminder = 1678519800000
   \<and> TimeWithinDay (local_time new_york_2023 1678519800000) = 9000000
   \<and> TimeWithinDay (local_time new_york_2023 1678606200000) = 12600000"
proof -
  have noon: "next_occurrence new_york_2023 1699120000000 noon_reminder = Some 1699203600000"
    by (simp add: next_occurrence_def Let_def setDate_getDate noon_reminder_def local_time_def
        utc_time_def new_york_2023_def msPerDay_def catch_up_future)
  have night: "next_occurrence new_york_2023 1678530000000 night_reminder = Some 1678606200000"
    by (simp add: next_occurrence_def Let_def setDate_getDate night_reminder_def local_time_def
        utc_time_def new_york_2023_def msPerDay_def catch_up_future)
  have a: "map_option schedules
     (handleScheduleCompletion new_york_2023 1699120000000 ''schedule-noon'' reminders_state)
     = Some [noon_reminder\<lparr>time := 1699203600000\<rparr>, night_reminder]"
    by (simp add: handleScheduleCompletion_def complete_schedule_def noon reminders_state_def)
       (simp add: noon_reminder_def)
  have b: "map_option schedules
     (handleScheduleCompletion new_york_2023 1678530000000 ''schedule-night'' reminders_state)
     = Some [noon_reminder, night_reminder\<lparr>time := 1678606200000\<rparr>]"
    by (simp add: handleScheduleCompletion_def complete_schedule_def night reminders_state_def)
       (simp add: noon_reminder_def night_reminder_def)
  have c: "time noon_reminder = 1699113600000" "time night_reminder = 1678519800000"
    by (simp_all add: noon_reminder_def night_reminder_def)
  have d: "(1699203600000 - 1699113600000) mod msPerDay = 3600000"
    "TimeWithinDay (local_time new_york_2023 1678519800000) = 9000000"
    "TimeWithinDay (local_time new_york_2023 1678606200000) = 12600000"
    by (simp_all add: TimeWithinDay_def local_time_def new_york_2023_def msPerDay_def)
  from a b c d show ?thesis by simp
qed

lemma fixed_zone_wall_clock:
  "local_time (fixed_zone z) (occurrence (fixed_zone z) sc i)
     = local_time (fixed_zone z) (time sc) + int i * msPerDay"
  by (simp add: local_time_def utc_time_def occurrence_def fixed_zone_def)

lemma fixed_zone_future: "\<exists>K\<ge>1. now < occurrence (fixed_zone z) sc K"
proof -
  let ?i = "nat (now - time sc) + 1"
  have "now - time sc < int ?i" by simp
  also have "\<dots> \<le> int ?i * msPerDay" by (simp add: msPerDay_def)
  finally have "now < occurrence (fixed_zone z) sc ?i"
    by (simp add: local_time_def utc_time_def occurrence_def fixed_zone_def)
  then show ?thesis by (intro exI[of _ ?i]) simp
qed

text \<open>
  Claim C7, amended. Take a recurring daily schedule whose \<open>time\<close> lies in the past, and
  call its \<open>i\<close>-th occurrence the instant that the zone reads from the schedule's local
  wall-clock time \<open>i\<close> calendar days later. Suppose that some occurrence \<open>K \<ge> 1\<close> lies after
  \<open>Date.now()\<close> and that, for \<open>i\<close> from 1 to \<open>K\<close>, the zone shows the \<open>i\<close>-th occurrence at
  that wall-clock time (no transition skips or repeats it). Completing the schedule then
  sets its \<open>time\<close> to the first occurrence, counting \<open>i = 1, 2, ...\<close>, that lies strictly in
  the future: a whole number \<open>k \<ge> 1\<close> of calendar days after the original local date, at
  the same local time of day. As an instant it is the original one plus \<open>k\<close> times 24
  hours plus the zone's offset at the original instant minus its offset at the new one
  (so exactly \<open>k\<close> times 24 hours later when the offset is the same at both). Nothing
  else of the schedule changes.
  Every zone at a fixed offset meets the two conditions (\<open>fixed_zone_wall_clock\<close>,
  \<open>fixed_zone_future\<close>).
\<close>

theorem daily_schedule_completion:
  assumes "find (\<lambda>sc. schedule_id sc = scheduleId) (schedules s) = Some sc"
    and "recurrence sc = daily"
    and "time sc \<le> now"
    and "1 \<le> K"
    and "now < occurrence tz sc K"
    and "\<forall>i. 1 \<le> i \<and> i \<le> K \<longrightarrow>
          local_time tz (occurrence tz sc i) = local_time tz (time sc) + int i * msPerDay"
  shows "\<exists>k s'. 1 \<le> k \<and> k \<le> K
      \<and> handleScheduleCompletion tz now scheduleId s = Some s'
      \<and> find (\<lambda>sc. schedule_id sc = scheduleId) (schedules s') = Some (sc\<lparr>time := occurrence tz sc k\<rparr>)
      \<and> now < occurrence tz sc k
      \<and> (\<forall>j. 1 \<le> j \<and> j < k \<longrightarrow> occurrence tz sc j \<le> now)
      \<and> Day (local_time tz (occurrence tz sc k)) = Day (local_time tz (time sc)) + int k
      \<and> TimeWithinDay (local_time tz (occurrence tz sc k)) = TimeWithinDay (local_time tz (time sc))
      \<and> occurrence tz sc k
           = time sc + int k * msPerDay + (offset_at tz (time sc) - offset_at tz (occurrence tz sc k))"
proof -
  from next_occurrence_daily[OF assms(2,4,5,6)] obtain k where
    k: "1 \<le> k" "k \<le> K" "next_occurrence tz now sc = Some (occurrence tz sc k)"
      "now < occurrence tz sc k" "\<forall>j. 1 \<le> j \<and> j < k \<longrightarrow> occurrence tz sc j \<le> now"
    by blast
  let ?sc' = "sc\<lparr>time := occurrence tz sc k\<rparr>"
  let ?s' = "s\<lparr>schedules :=
      update_first (\<lambda>sc. schedule_id sc = scheduleId) (\<lambda>sc. ?sc') (schedules s)\<rparr>"
  have compl: "complete_schedule tz now sc = Some ?sc'"
    using assms(2) k(3) by (simp add: complete_schedule_def)
  have ret: "handleScheduleCompletion tz now scheduleId s = Some ?s'"
    using assms(1) compl by (simp add: handleScheduleCompletion_def)
  have "schedule_id ?sc' = scheduleId"
    using assms(1) by (auto dest: find_Some_iff[THEN iffD1])
  with assms(1) have found: "find (\<lambda>sc. schedule_id sc = scheduleId) (schedules ?s')
      = Some ?sc'"
    by (simp add: find_update_first)
  have loc: "local_time tz (occurrence tz sc k) = local_time tz (time sc) + int k * msPerDay"
    using assms(6) k(1,2) by simp
  have day: "Day (local_time tz (occurrence tz sc k)) = Day (local_time tz (time sc)) + int k"
    and tod: "TimeWithinDay (local_time tz (occurrence tz sc k)) = TimeWithinDay (local_time tz (time sc))"
    unfolding loc by (rule local_day_shift)+
  have same: "occurrence tz sc k
      = time sc + int k * msPerDay + (offset_at tz (time sc) - offset_at tz (occurrence tz sc k))"
    using loc by (simp add: local_time_def)
  from k(1,2,4,5) ret found day tod same show ?thesis
    by (intro exI[of _ k] conjI exI[of _ ?s']) auto
qed

lemma new_york_after_november:
  assumes "1 \<le> i"
  shows "local_time new_york_2023 (occurrence new_york_2023 noon_reminder i)
     = local_time new_york_2023 (time noon_reminder) + int i * msPerDay"
    and "occurrence new_york_2023 noon_reminder i = 1699117200000 + int i * msPerDay"
proof -
  have l0: "local_time new_york_2023 (time noon_reminder) = 1699099200000"
    by (simp add: local_time_def new_york_2023_def noon_reminder_def)
  have "msPerDay \<le> int i * msPerDay" using assms by (simp add: msPerDay_def)
  then have big: "1699185600000 \<le> 1699099200000 + int i * msPerDay"
    by (simp add: msPerDay_def)
  then have "offset_of_local new_york_2023 (1699099200000 + int i * msPerDay) = - 18000000"
    by (simp add: new_york_2023_def)
  then show occ: "occurrence new_york_2023 noon_reminder i = 1699117200000 + int i * msPerDay"
    by (simp add: occurrence_def utc_time_def l0)
  have "offset_at new_york_2023 (1699117200000 + int i * msPerDay) = - 18000000"
    using big by (simp add: new_york_2023_def)
  then have "local_time new_york_2023 (1699117200000 + int i * msPerDay)
      = 1699099200000 + int i * msPerDay"
    by (simp add: local_time_def)
  then show "local_time new_york_2023 (occurrence new_york_2023 noon_reminder i)
     = local_time new_york_2023 (time noon_reminder) + int i * msPerDay"
    by (simp only: occ l0)
qed

theorem daily_schedule_completion_witness:
  "\<exists>s'. handleScheduleCompletion new_york_2023 1699210000000 ''schedule-noon'' reminders_state = Some s'
     \<and> find (\<lambda>sc. schedule_id sc = ''schedule-noon'') (schedules s')
        = Some (noon_reminder\<lparr>time := 1699290000000\<rparr>)"
proof -
  let ?tz = new_york_2023
  let ?now = "1699210000000 :: int"
  have f: "find (\<lambda>sc. schedule_id sc = ''schedule-noon'') (schedules reminders_state)
      = Some noon_reminder"
    by (simp add: reminders_state_def noon_reminder_def)
  have r: "recurrence noon_reminder = daily" and past: "time noon_reminder \<le> ?now"
    by (simp_all add: noon_reminder_def)
  have wall: "\<forall>i. 1 \<le> i \<and> i \<le> 2 \<longrightarrow> local_time ?tz (occurrence ?tz noon_reminder i)
      = local_time ?tz (time noon_reminder) + int i * msPerDay"
    using new_york_after_november(1) by blast
  have occ: "\<And>i. 1 \<le> i \<Longrightarrow> occurrence ?tz noon_reminder i = 1699117200000 + int i * msPerDay"
    by (rule new_york_after_november(2))
  have fut: "?now < occurrence ?tz noon_reminder 2" by (simp add: occ msPerDay_def)
  have two: "(1::nat) \<le> 2" by simp
  from daily_schedule_completion[OF f r past two fut wall] obtain k s' where
    k1: "1 \<le> k"
    and ret: "handleScheduleCompletion ?tz ?now ''schedule-noon'' reminders_state = Some s'"
    and found: "find (\<lambda>sc. schedule_id sc = ''schedule-noon'') (schedules s')
        = Some (noon_reminder\<lparr>time := occurrence ?tz noon_reminder k\<rparr>)"
    and future: "?now < occurrence ?tz noon_reminder k"
    and first: "\<forall>j. 1 \<le> j \<and> j < k \<longrightarrow> occurrence ?tz noon_reminder j \<le> ?now"
    by blast
  have "k \<noteq> 1" using future by (auto simp: occ msPerDay_def)
  moreover have "\<not> 2 < k"
  proof
    assume "2 < k"
    with first have "occurrence ?tz noon_reminder 2 \<le> ?now" by simp
    then show False by (simp add: occ msPerDay_def)
  qed
  ultimately have "k = 2" using k1 by linarith
  then have "occurrence ?tz noon_reminder k = 1699290000000"
    by (simp add: occ msPerDay_def)
  with ret found show ?thesis by simp
qed

section \<open>Quota-safe persistence: safeLocalStorage.setItem\<close>

text \<open>
  The persisted JSON document as \<open>JSON.parse\<close> returns it: the three arrays that the
  recovery looks at, each absent (\<open>undefined\<close> somewhere along its optional chain) or
  present, and the rest of the document. The JSON values themselves are the type
  parameter \<open>'x\<close>; \<open>JSON.stringify\<close> and \<open>JSON.parse\<close> are inverse to each other on
  documents, so the store holds documents.
\<close>

record 'x Blob =
  blob_activityLog :: "'x list option"
  blob_journalHistory :: "'x list option"
  blob_verbalHistory :: "'x list option"
  blob_rest :: 'x

text \<open>
  The browser's \<open>localStorage\<close>: the stored items, and the browser's decision on a
  write, given the items held, the key and the new value. A write either succeeds and
  replaces the item, or throws and changes nothing.
\<close>

datatype StorageError = QuotaExceededError | OtherError

type_synonym 'x Items = "string \<Rightarrow> 'x Blob option"

type_synonym 'x WritePolicy = "'x Items \<Rightarrow> string \<Rightarrow> 'x Blob \<Rightarrow> StorageError option"

definition localStorage_setItem ::
  "'x WritePolicy \<Rightarrow> 'x Items \<Rightarrow> string \<Rightarrow> 'x Blob \<Rightarrow> StorageError + 'x Items" where
  "localStorage_setItem policy items nm v =
     (case policy items nm v of
        Some e \<Rightarrow> Inl e
      | None \<Rightarrow> Inr (items(nm \<mapsto> v)))"

text \<open>\<open>pruneArray\<close>: the array after the call, and whether it set \<open>stateModified\<close>.
  \<open>splice(n - k)\<close> keeps the first \<open>n - k\<close> elements; the oldest are at the end. The
  product \<open>originalLength * 0.2\<close> is taken exactly.\<close>

definition pruneArray :: "'a list option \<Rightarrow> 'a list option \<times> bool" where
  "pruneArray arr =
     (case arr of
        None \<Rightarrow> (None, False)
      | Some xs \<Rightarrow>
          if length xs > 10
          then (let originalLength = length xs;
                    numberToRemove = nat \<lceil>real originalLength * 0.2\<rceil>
                in (Some (take (originalLength - numberToRemove) xs), True))
          else (Some xs, False))"

definition setItem :: "'x WritePolicy \<Rightarrow> string \<Rightarrow> 'x Blob \<Rightarrow> 'x Items \<Rightarrow> 'x Items" where
  "setItem policy nm v items =
     (case localStorage_setItem policy items nm v of
        Inr items' \<Rightarrow> items'
      | Inl QuotaExceededError \<Rightarrow>
          (case items nm of
             None \<Rightarrow> items
           | Some currentState \<Rightarrow>
               (let (log', m1) = pruneArray (blob_activityLog currentState);
                    (journal', m2) = pruneArray (blob_journalHistory currentState);
                    (verbal', m3) = pruneArray (blob_verbalHistory currentState);
                    stateModified = (m1 \<or> m2 \<or> m3);
                    prunedState = currentState\<lparr>blob_activityLog := log',
                                    blob_journalHistory := journal', blob_verbalHistory := verbal'\<rparr>
                in if stateModified
                   then (case localStorage_setItem policy items nm prunedState of
                           Inl cleanupError \<Rightarrow> items
                         | Inr items1 \<Rightarrow>
                             (case localStorage_setItem policy items1 nm v of
                                Inl cleanupError \<Rightarrow> items1
                              | Inr items2 \<Rightarrow> items2))
                   else items))
      | Inl OtherError \<Rightarrow> items)"

text \<open>The recovery policy in the words of the specification: a list of more than 10
  entries loses its oldest 20 percent, rounded up; the pruned document; and whether
  anything was pruned.\<close>

definition spec_prune :: "'a list option \<Rightarrow> 'a list option" where
  "spec_prune arr =
     (case arr of
        None \<Rightarrow> None
      | Some xs \<Rightarrow> if 10 < length xs then Some (take (length xs - (length xs + 4) div 5) xs) else Some xs)"

definition exceeds_10 :: "'a list option \<Rightarrow> bool" where
  "exceeds_10 arr = (case arr of None \<Rightarrow> False | Some xs \<Rightarrow> 10 < length xs)"

definition pruned_blob :: "'x Blob \<Rightarrow> 'x Blob" where
  "pruned_blob b =
     b\<lparr>blob_activityLog := spec_prune (blob_activityLog b),
       blob_journalHistory := spec_prune (blob_journalHistory b),
       blob_verbalHistory := spec_prune (blob_verbalHistory b)\<rparr>"

definition prunable :: "'x Blob \<Rightarrow> bool" where
  "prunable b =
     (exceeds_10 (blob_activityLog b) \<or> exceeds_10 (blob_journalHistory b)
      \<or> exceeds_10 (blob_verbalHistory b))"

text \<open>A browser for concrete runs: the only limit is on the number of activity-log
  entries of the document written under the key.\<close>

definition log_quota :: "nat \<Rightarrow> nat WritePolicy" where
  "log_quota cap items nm v =
     (case blob_activityLog v of
        None \<Rightarrow> None
      | Some xs \<Rightarrow> if length xs \<le> cap then None else Some QuotaExceededError)"

definition log_blob :: "nat list \<Rightarrow> nat Blob" where
  "log_blob xs = \<lparr>blob_activityLog = Some xs, blob_journalHistory = Some [],
                   blob_verbalHistory = None, blob_rest = 0\<rparr>"

definition storage_key :: string where
  "storage_key = ''portals-of-consciousness-storage''"

definition stored :: "nat list \<Rightarrow> nat Items" where
  "stored xs = Map.empty(storage_key \<mapsto> log_blob xs)"

section \<open>Properties of the persistence layer\<close>

lemma ceil_fifth_div: "nat \<lceil>real n / 5\<rceil> = (n + 4) div 5"
proof -
  have "\<lceil>real n / 5\<rceil> = - \<lfloor>- (real_of_int (int n)) / real_of_int 5\<rfloor>"
    by (simp add: ceiling_def)
  also have "\<dots> = - ((- int n) div 5)"
    by (simp only: floor_divide_of_int_eq of_int_minus[symmetric])
  also have "\<dots> = int ((n + 4) div 5)"
    by (simp add: zdiv_int)
  finally show ?thesis by simp
qed

lemma pruneArray_spec: "pruneArray arr = (spec_prune arr, exceeds_10 arr)"
  by (simp add: pruneArray_def spec_prune_def exceeds_10_def ceil_fifth_div Let_def
      split: option.splits)

lemma setItem_first_write_ok:
  "policy items nm v = None \<Longrightarrow> setItem policy nm v items = items(nm \<mapsto> v)"
  by (simp add: setItem_def localStorage_setItem_def)

lemma setItem_other_error:
  "policy items nm v = Some OtherError \<Longrightarrow> setItem policy nm v items = items"
  by (simp add: setItem_def localStorage_setItem_def)

lemma setItem_quota:
  assumes "policy items nm v = Some QuotaExceededError"
  shows "setItem policy nm v items =
     (case items nm of
        None \<Rightarrow> items
      | Some cur \<Rightarrow>
          if prunable cur
          then (case policy items nm (pruned_blob cur) of
                  Some e \<Rightarrow> items
                | None \<Rightarrow>
                    (case policy (items(nm \<mapsto> pruned_blob cur)) nm v of
                       Some e \<Rightarrow> items(nm \<mapsto> pruned_blob cur)
                     | None \<Rightarrow> items(nm \<mapsto> v)))
          else items)"
  using assms
  by (simp add: setItem_def localStorage_setItem_def pruneArray_spec pruned_blob_def prunable_def
      Let_def split: option.splits)

definition old15 :: "nat list" where
  "old15 = [15, 14, 13, 12, 11, 10, 9, 8, 7, 6, 5, 4, 3, 2, 1]"

lemma log_quota_rejects_16:
  "log_quota 15 items nm (log_blob (16 # old15)) = Some QuotaExceededError"
  by (simp add: log_quota_def log_blob_def old15_def)

lemma pruned_old15:
  "prunable (log_blob old15)
   \<and> pruned_blob (log_blob old15) = log_blob [15, 14, 13, 12, 11, 10, 9, 8, 7, 6, 5, 4]"
  by (simp add: prunable_def exceeds_10_def pruned_blob_def spec_prune_def log_blob_def old15_def)

lemma stored_key: "stored xs storage_key = Some (log_blob xs)"
  by (simp add: stored_def)

lemma log_quota_accepts_12:
  "log_quota 15 items nm (log_blob [15, 14, 13, 12, 11, 10, 9, 8, 7, 6, 5, 4]) = None"
  by (simp add: log_quota_def log_blob_def)

lemma setItem_demo:
  "setItem (log_quota 15) storage_key (log_blob (16 # old15)) (stored old15)
     = (stored old15)(storage_key \<mapsto> log_blob [15, 14, 13, 12, 11, 10, 9, 8, 7, 6, 5, 4])"
proof -
  have "setItem (log_quota 15) storage_key (log_blob (16 # old15)) (stored old15)
      = (case stored old15 storage_key of
           None \<Rightarrow> stored old15
         | Some cur \<Rightarrow>
             if prunable cur
             then (case log_quota 15 (stored old15) storage_key (pruned_blob cur) of
                     Some e \<Rightarrow> stored old15
                   | None \<Rightarrow>
                       (case log_quota 15 ((stored old15)(storage_key \<mapsto> pruned_blob cur)) storage_key
                               (log_blob (16 # old15)) of
                          Some e \<Rightarrow> (stored old15)(storage_key \<mapsto> pruned_blob cur)
                        | None \<Rightarrow> (stored old15)(storage_key \<mapsto> log_blob (16 # old15))))
             else stored old15)"
    by (rule setItem_quota) (rule log_quota_rejects_16)
  also have "\<dots> = (stored old15)(storage_key \<mapsto> log_blob [15, 14, 13, 12, 11, 10, 9, 8, 7, 6, 5, 4])"
    by (simp add: stored_key pruned_old15 log_quota_accepts_12 log_quota_rejects_16)
  finally show ?thesis .
qed

text \<open>
  Claim C1, as stated, fails. With a quota that admits 15 log entries, 15 entries stored
  and a new document of 16, the write throws; the pruned document (12 entries) is written;
  the retry of the original, unchanged document throws again and is swallowed: the
  original write never succeeds and the store keeps the pruned old document. And with 5
  entries stored under a quota of 5, a rejected write of 6 prunes nothing and writes
  nothing at all.
\<close>

theorem setItem_retry_does_not_succeed:
  "localStorage_setItem (log_quota 15) (stored old15) storage_key (log_blob (16 # old15))
     = Inl QuotaExceededError
   \<and> setItem (log_quota 15) storage_key (log_blob (16 # old15)) (stored old15) storage_key
     = Some (log_blob [15, 14, 13, 12, 11, 10, 9, 8, 7, 6, 5, 4])
   \<and> setItem (log_quota 15) storage_key (log_blob (16 # old15)) (stored old15) storage_key
     \<noteq> Some (log_blob (16 # old15))
   \<and> localStorage_setItem (log_quota 5) (stored [5, 4, 3, 2, 1]) storage_key (log_blob [6, 5, 4, 3, 2, 1])
     = Inl QuotaExceededError
   \<and> setItem (log_quota 5) storage_key (log_blob [6, 5, 4, 3, 2, 1]) (stored [5, 4, 3, 2, 1])
     = stored [5, 4, 3, 2, 1]"
proof -
  have a: "setItem (log_quota 15) storage_key (log_blob (16 # old15)) (stored old15) storage_key
      = Some (log_blob [15, 14, 13, 12, 11, 10, 9, 8, 7, 6, 5, 4])"
    by (simp add: setItem_demo)
  have b: "log_blob [15, 14, 13, 12, 11, 10, 9, 8, 7, 6, 5, 4] \<noteq> log_blob (16 # old15)"
    by (simp add: log_blob_def old15_def)
  have c: "log_quota 5 (stored [5, 4, 3, 2, 1]) storage_key (log_blob [6, 5, 4, 3, 2, 1])
      = Some QuotaExceededError"
    by (simp add: log_quota_def log_blob_def)
  have d: "setItem (log_quota 5) storage_key (log_blob [6, 5, 4, 3, 2, 1]) (stored [5, 4, 3, 2, 1])
      = stored [5, 4, 3, 2, 1]"
    using setItem_quota[where policy="log_quota 5" and items="stored [5, 4, 3, 2, 1]"
        and nm=storage_key and v="log_blob [6, 5, 4, 3, 2, 1]"] c
    by (simp add: stored_key prunable_def exceeds_10_def log_blob_def)
  show ?thesis
    using a b c d
    by (simp add: localStorage_setItem_def log_quota_rejects_16)
qed

text \<open>
  Claim C1, amended. When a write throws a quota-exceeded error and a document is stored
  under the key, \<open>setItem\<close> reads the stored document back and drops, from each of the
  activity log, the journal history and the verbal-frequency history that holds more than
  10 entries, the oldest 20 percent (rounded up). If no list exceeds 10 entries nothing is
  written. Otherwise it writes the pruned document and then retries the original write
  once, swallowing any error: afterwards the store holds the new document if the retry
  succeeded, the pruned document if only its write succeeded, and what it held before if
  that write failed. With 15 entries in the stored activity log, the pruned document that
  is written holds the 12 newest of them.
\<close>

theorem setItem_quota_recovery:
  assumes "policy items nm v = Some QuotaExceededError"
    and "items nm = Some cur"
  shows "(\<not> prunable cur \<longrightarrow> setItem policy nm v items = items)
    \<and> (prunable cur \<and> policy items nm (pruned_blob cur) \<noteq> None \<longrightarrow>
          setItem policy nm v items = items)
    \<and> (prunable cur \<and> policy items nm (pruned_blob cur) = None
          \<and> policy (items(nm \<mapsto> pruned_blob cur)) nm v \<noteq> None \<longrightarrow>
          setItem policy nm v items = items(nm \<mapsto> pruned_blob cur))
    \<and> (prunable cur \<and> policy items nm (pruned_blob cur) = None
          \<and> policy (items(nm \<mapsto> pruned_blob cur)) nm v = None \<longrightarrow>
          setItem policy nm v items = items(nm \<mapsto> v))
    \<and> (\<forall>xs. blob_activityLog cur = Some xs \<and> 10 < length xs \<longrightarrow>
          prunable cur
          \<and> blob_activityLog (pruned_blob cur) = Some (take (length xs - (length xs + 4) div 5) xs))
    \<and> (\<forall>xs. blob_activityLog cur = Some xs \<and> length xs \<le> 10 \<longrightarrow>
          blob_activityLog (pruned_blob cur) = Some xs)
    \<and> (\<forall>xs. blob_activityLog cur = Some xs \<and> length xs = 15 \<longrightarrow>
          blob_activityLog (pruned_blob cur) = Some (take 12 xs))
    \<and> blob_journalHistory (pruned_blob cur) = spec_prune (blob_journalHistory cur)
    \<and> blob_verbalHistory (pruned_blob cur) = spec_prune (blob_verbalHistory cur)
    \<and> blob_rest (pruned_blob cur) = blob_rest cur"
proof (intro conjI impI allI)
  show "setItem policy nm v items = items" if "\<not> prunable cur"
    using that assms by (simp add: setItem_quota)
  show "setItem policy nm v items = items"
    if "prunable cur \<and> policy items nm (pruned_blob cur) \<noteq> None"
    using that assms by (auto simp: setItem_quota)
  show "setItem policy nm v items = items(nm \<mapsto> pruned_blob cur)"
    if "prunable cur \<and> policy items nm (pruned_blob cur) = None
          \<and> policy (items(nm \<mapsto> pruned_blob cur)) nm v \<noteq> None"
    using that assms by (auto simp: setItem_quota)
  show "setItem policy nm v items = items(nm \<mapsto> v)"
    if "prunable cur \<and> policy items nm (pruned_blob cur) = None
          \<and> policy (items(nm \<mapsto> pruned_blob cur)) nm v = None"
    using that assms by (simp add: setItem_quota)
  show "prunable cur" if "blob_activityLog cur = Some xs \<and> 10 < length xs" for xs
    using that by (simp add: prunable_def exceeds_10_def)
  show "blob_activityLog (pruned_blob cur) = Some (take (length xs - (length xs + 4) div 5) xs)"
    if "blob_activityLog cur = Some xs \<and> 10 < length xs" for xs
    using that by (simp add: pruned_blob_def spec_prune_def)
  show "blob_activityLog (pruned_blob cur) = Some xs"
    if "blob_activityLog cur = Some xs \<and> length xs \<le> 10" for xs
    using that by (simp add: pruned_blob_def spec_prune_def)
  show "blob_activityLog (pruned_blob cur) = Some (take 12 xs)"
    if "blob_activityLog cur = Some xs \<and> length xs = 15" for xs
    using that by (simp add: pruned_blob_def spec_prune_def)
qed (simp_all add: pruned_blob_def)

theorem setItem_quota_recovery_witness:
  "log_quota 15 (stored old15) storage_key (log_blob (16 # old15)) = Some QuotaExceededError
   \<and> stored old15 storage_key = Some (log_blob old15)
   \<and> setItem (log_quota 15) storage_key (log_blob (16 # old15)) (stored old15)
       = (stored old15)(storage_key \<mapsto> pruned_blob (log_blob old15))
   \<and> blob_activityLog (pruned_blob (log_blob old15)) = Some (take 12 old15)
   \<and> length (take 12 old15) = 12"
proof -
  have q: "log_quota 15 (stored old15) storage_key (log_blob (16 # old15)) = Some QuotaExceededError"
    by (rule log_quota_rejects_16)
  have k: "stored old15 storage_key = Some (log_blob old15)"
    by (rule stored_key)
  note inst = setItem_quota_recovery[where policy="log_quota 15" and items="stored old15"
      and nm=storage_key and v="log_blob (16 # old15)" and cur="log_blob old15", OF q k]
  have p: "prunable (log_blob old15)" using pruned_old15 by blast
  have w1: "log_quota 15 (stored old15) storage_key (pruned_blob (log_blob old15)) = None"
    by (simp add: pruned_old15 log_quota_accepts_12)
  have w2: "log_quota 15 ((stored old15)(storage_key \<mapsto> pruned_blob (log_blob old15))) storage_key
      (log_blob (16 # old15)) \<noteq> None"
    by (simp add: log_quota_rejects_16)
  from inst p w1 w2 have r: "setItem (log_quota 15) storage_key (log_blob (16 # old15)) (stored old15)
       = (stored old15)(storage_key \<mapsto> pruned_blob (log_blob old15))"
    by blast
  have "blob_activityLog (log_blob old15) = Some old15 \<and> length old15 = 15"
    by (simp add: log_blob_def old15_def)
  with inst have l: "blob_activityLog (pruned_blob (log_blob old15)) = Some (take 12 old15)"
    by blast
  have "length (take 12 old15) = 12" by (simp add: old15_def)
  with q k r l show ?thesis by simp
qed

text \<open>
  Under a quota that looks only at the key and the document being written (as a size
  limit on a store with this single key does), the retry is decided like the first
  attempt: after a quota error the store never comes to hold the new document.
\<close>

lemma setItem_retry_fails_under_value_quota:
  assumes "\<And>items items'. policy items nm v = policy items' nm v"
    and "policy items nm v = Some QuotaExceededError"
  shows "setItem policy nm v items nm = items nm
    \<or> (\<exists>cur. items nm = Some cur \<and> setItem policy nm v items nm = Some (pruned_blob cur))"
proof (cases "items nm")
  case None
  then show ?thesis using assms(2) by (simp add: setItem_quota)
next
  case (Some cur)
  have "policy (items(nm \<mapsto> pruned_blob cur)) nm v = Some QuotaExceededError"
    using assms by metis
  then show ?thesis using Some assms(2)
    by (simp add: setItem_quota split: option.splits)
qed

end
